theory Spec2Isabelle
  imports Complex_Main "HOL-Library.Product_Lexorder"
begin

section \<open>Strings\<close>

text \<open>
  A JavaScript string is modelled as a \<^typ>\<open>string\<close>: a list of code units, of which only
  the values 0 to 255 are represented. The white space of \<open>trim()\<close> and of the regular
  expression class \<open>\s\<close> is, within that range, tab, line feed, vertical tab, form feed,
  carriage return, space and the no-break space. The class \<open>\d\<close> is the ten ASCII digits.
\<close>

definition isSpace :: "char \<Rightarrow> bool" where
  "isSpace c = (c \<in> set [CHR 0x09, CHR 0x0A, CHR 0x0B, CHR 0x0C, CHR 0x0D, CHR 0x20, CHR 0xA0])"

definition isDigit :: "char \<Rightarrow> bool" where
  "isDigit c = (c \<in> set ''0123456789'')"

text \<open>The class \<open>[\d.]\<close> of the parameter-matching expressions.\<close>

definition isNumCh :: "char \<Rightarrow> bool" where
  "isNumCh c = (isDigit c \<or> c = CHR ''.'')"

text \<open>\<open>s.trim()\<close>\<close>

definition trim :: "string \<Rightarrow> string" where
  "trim s = rev (dropWhile isSpace (rev (dropWhile isSpace s)))"

text \<open>\<open>s.split(c)\<close> for a one-character separator: never empty, \<open>''.split(c)\<close> is \<open>['']\<close>.\<close>

fun splitOn :: "char \<Rightarrow> string \<Rightarrow> string list" where
  "splitOn c [] = [[]]"
| "splitOn c (x # xs) =
     (if x = c then [] # splitOn c xs
      else (case splitOn c xs of [] \<Rightarrow> [[x]] | w # ws \<Rightarrow> (x # w) # ws))"

text \<open>\<open>ws.join(c)\<close>\<close>

fun joinWith :: "char \<Rightarrow> string list \<Rightarrow> string" where
  "joinWith c [] = []"
| "joinWith c [w] = w"
| "joinWith c (w # v # ws) = w @ c # joinWith c (v # ws)"

definition splitLines :: "string \<Rightarrow> string list" where
  "splitLines text = splitOn CHR 0x0A text"

definition joinLines :: "string list \<Rightarrow> string" where
  "joinLines ls = joinWith CHR 0x0A ls"

text \<open>\<open>line.split(';')[0]\<close>: the text before the first semicolon.\<close>

definition beforeSemicolon :: "string \<Rightarrow> string" where
  "beforeSemicolon line = hd (splitOn CHR '';'' line)"

text \<open>
  \<open>s.split(/\s+/)\<close>: the pieces between maximal runs of white space; a run at either end
  of the string leaves an empty piece there.
\<close>

function splitWs :: "string \<Rightarrow> string list" where
  "splitWs [] = [[]]"
| "splitWs (x # xs) =
     (if isSpace x then [] # splitWs (dropWhile isSpace xs)
      else (case splitWs xs of [] \<Rightarrow> [[x]] | w # ws \<Rightarrow> (x # w) # ws))"
  by pat_completeness auto
termination
  by (relation "measure length") (auto simp: less_Suc_eq_le length_dropWhile_le)

definition startsWith :: "string \<Rightarrow> string \<Rightarrow> bool" where
  "startsWith p s = (take (length p) s = p)"

text \<open>\<open>s.includes(p)\<close>\<close>

fun includesStr :: "string \<Rightarrow> string \<Rightarrow> bool" where
  "includesStr p [] = (p = [])"
| "includesStr p (x # xs) = (startsWith p (x # xs) \<or> includesStr p xs)"

section \<open>Numbers\<close>

text \<open>
  A JavaScript number is a binary64 value. It is modelled as \<open>NaN\<close>, one of the two
  infinities, or the real number that the value denotes; the two zeros are one. Every
  operation that rounds does so through \<open>round64\<close>: to the nearest binary64 value, to
  the one with the even significand when two are equally near, to an infinity from
  \<open>2\<^sup>1\<^sup>0\<^sup>2\<^sup>4\<close> on.
\<close>

datatype jsnum = NaN | NInf | Fin real | PInf

text \<open>The number of binary digits of a natural number.\<close>

fun bitLength :: "nat \<Rightarrow> nat" where
  "bitLength n = (if n = 0 then 0 else Suc (bitLength (n div 2)))"

declare bitLength.simps [simp del]

text \<open>The binary exponent \<open>e\<close> of a real that is not zero: \<open>2\<^sup>e \<le> \<bar>x\<bar> < 2\<^sup>e\<^sup>+\<^sup>1\<close>.\<close>

definition exponent2 :: "real \<Rightarrow> int" where
  "exponent2 x =
     (if 1 \<le> \<bar>x\<bar> then int (bitLength (nat \<lfloor>\<bar>x\<bar>\<rfloor>)) - 1
      else - int (bitLength (nat (\<lceil>1 / \<bar>x\<bar>\<rceil> - 1))))"

definition pow2 :: "int \<Rightarrow> real" where
  "pow2 k = (if 0 \<le> k then 2 ^ nat k else 1 / 2 ^ nat (- k))"

text \<open>The nearest integer, the even one of two that are equally near.\<close>

definition roundEven :: "real \<Rightarrow> int" where
  "roundEven r =
     (let f = \<lfloor>r\<rfloor>; d = r - of_int f
      in if d < 1 / 2 then f
         else if 1 / 2 < d then f + 1
         else if even f then f else f + 1)"

text \<open>
  Rounding a real to binary64. The values around \<open>x\<close> are the multiples of
  \<open>2\<^sup>e\<^sup>-\<^sup>5\<^sup>2\<close>, where \<open>e\<close> is the exponent of \<open>x\<close> and at least \<open>-1022\<close>.
\<close>

definition round64 :: "real \<Rightarrow> jsnum" where
  "round64 x =
     (if x = 0 then Fin 0
      else (let q = pow2 (max (exponent2 x) (- 1022) - 52);
                y = of_int (roundEven (x / q)) * q
            in if 2 ^ 1024 \<le> \<bar>y\<bar> then (if 0 < x then PInf else NInf) else Fin y))"

fun jneg :: "jsnum \<Rightarrow> jsnum" where
  "jneg NaN = NaN"
| "jneg NInf = PInf"
| "jneg (Fin a) = Fin (- a)"
| "jneg PInf = NInf"

fun jadd :: "jsnum \<Rightarrow> jsnum \<Rightarrow> jsnum" where
  "jadd (Fin a) (Fin b) = round64 (a + b)"
| "jadd NaN _ = NaN"
| "jadd _ NaN = NaN"
| "jadd PInf NInf = NaN"
| "jadd NInf PInf = NaN"
| "jadd PInf _ = PInf"
| "jadd _ PInf = PInf"
| "jadd NInf _ = NInf"
| "jadd _ NInf = NInf"

definition jsub :: "jsnum \<Rightarrow> jsnum \<Rightarrow> jsnum" where
  "jsub a b = jadd a (jneg b)"

text \<open>The sign of a number that is not \<open>NaN\<close>: \<open>-1\<close>, \<open>0\<close> or \<open>1\<close>.\<close>

fun jsign :: "jsnum \<Rightarrow> int" where
  "jsign NaN = 0"
| "jsign NInf = - 1"
| "jsign (Fin a) = (if a < 0 then - 1 else if a = 0 then 0 else 1)"
| "jsign PInf = 1"

definition infOfSign :: "int \<Rightarrow> jsnum" where
  "infOfSign s = (if s < 0 then NInf else if s = 0 then NaN else PInf)"

fun jmul :: "jsnum \<Rightarrow> jsnum \<Rightarrow> jsnum" where
  "jmul (Fin a) (Fin b) = round64 (a * b)"
| "jmul NaN _ = NaN"
| "jmul _ NaN = NaN"
| "jmul a b = infOfSign (jsign a * jsign b)"

fun jdiv :: "jsnum \<Rightarrow> jsnum \<Rightarrow> jsnum" where
  "jdiv (Fin a) (Fin b) = (if b = 0 then infOfSign (jsign (Fin a)) else round64 (a / b))"
| "jdiv NaN _ = NaN"
| "jdiv _ NaN = NaN"
| "jdiv (Fin a) _ = Fin 0"
| "jdiv a (Fin b) = infOfSign (jsign a * (if b < 0 then - 1 else 1))"
| "jdiv _ _ = NaN"

text \<open>\<open>a < b\<close>, \<open>a > b\<close> and \<open>a === b\<close>: false as soon as one side is \<open>NaN\<close>.\<close>

fun jlt :: "jsnum \<Rightarrow> jsnum \<Rightarrow> bool" where
  "jlt (Fin a) (Fin b) = (a < b)"
| "jlt NaN _ = False"
| "jlt _ NaN = False"
| "jlt _ NInf = False"
| "jlt NInf _ = True"
| "jlt PInf _ = False"
| "jlt _ PInf = True"

definition jgt :: "jsnum \<Rightarrow> jsnum \<Rightarrow> bool" where
  "jgt a b = jlt b a"

definition jeq :: "jsnum \<Rightarrow> jsnum \<Rightarrow> bool" where
  "jeq a b = (a \<noteq> NaN \<and> a = b)"

text \<open>\<open>Math.max(a, b)\<close> and \<open>Math.min(a, b)\<close>\<close>

definition jmax :: "jsnum \<Rightarrow> jsnum \<Rightarrow> jsnum" where
  "jmax a b = (if a = NaN \<or> b = NaN then NaN else if jlt a b then b else a)"

definition jmin :: "jsnum \<Rightarrow> jsnum \<Rightarrow> jsnum" where
  "jmin a b = (if a = NaN \<or> b = NaN then NaN else if jlt b a then b else a)"

text \<open>\<open>Math.abs\<close>, \<open>Math.sqrt\<close> and \<open>Math.round\<close> (halves go up)\<close>

fun jabs :: "jsnum \<Rightarrow> jsnum" where
  "jabs NaN = NaN"
| "jabs NInf = PInf"
| "jabs (Fin a) = Fin \<bar>a\<bar>"
| "jabs PInf = PInf"

definition sqrt64 :: "real \<Rightarrow> jsnum" where
  "sqrt64 a = round64 (sqrt a)"

fun jsqrt :: "jsnum \<Rightarrow> jsnum" where
  "jsqrt NaN = NaN"
| "jsqrt NInf = NaN"
| "jsqrt (Fin a) = (if a < 0 then NaN else sqrt64 a)"
| "jsqrt PInf = PInf"

fun mathRound :: "jsnum \<Rightarrow> jsnum" where
  "mathRound (Fin a) = Fin (of_int \<lfloor>a + 1 / 2\<rfloor>)"
| "mathRound x = x"

text \<open>
  \<open>Math.PI\<close>, the binary64 number nearest to \<open>\<pi>\<close>: 3.141592653589793, with the
  significand \<open>7074237752028440\<close> and the exponent \<open>-51\<close>.
\<close>

definition mathPI :: jsnum where
  "mathPI = Fin (7074237752028440 / 2 ^ 51)"

text \<open>The truth value of a number in a condition: \<open>NaN\<close> and zero are false.\<close>

definition truthy :: "jsnum \<Rightarrow> bool" where
  "truthy x = (x \<noteq> NaN \<and> x \<noteq> Fin 0)"

subsection \<open>Reading and printing decimal numerals\<close>

definition digitVal :: "char \<Rightarrow> nat" where
  "digitVal c = of_char c - 48"

definition digitChar :: "nat \<Rightarrow> char" where
  "digitChar d = ''0123456789'' ! d"

definition natOfDigits :: "string \<Rightarrow> nat" where
  "natOfDigits ds = foldl (\<lambda>a c. 10 * a + digitVal c) 0 ds"

fun digitsOf :: "nat \<Rightarrow> string" where
  "digitsOf n = (if n < 10 then [digitChar n] else digitsOf (n div 10) @ [digitChar (n mod 10)])"

declare digitsOf.simps [simp del]

text \<open>An optional sign in front of a numeral: whether it is a minus, and the rest.\<close>

fun signOf :: "string \<Rightarrow> bool \<times> string" where
  "signOf [] = (False, [])"
| "signOf (c # r) =
     (if c = CHR ''-'' then (True, r) else if c = CHR ''+'' then (False, r) else (False, c # r))"

text \<open>
  The exponent part of a numeral, when one follows: \<open>e\<close> or \<open>E\<close>, an optional sign and at
  least one digit. Anything else is not part of the numeral and counts as exponent 0.
\<close>

fun exponentOf :: "string \<Rightarrow> int" where
  "exponentOf [] = 0"
| "exponentOf (c # r) =
     (if c = CHR ''e'' \<or> c = CHR ''E'' then
        (let (eneg, d) = signOf r; ds = takeWhile isDigit d
         in if ds = [] then 0
            else if eneg then - int (natOfDigits ds) else int (natOfDigits ds))
      else 0)"

definition scale10 :: "real \<Rightarrow> int \<Rightarrow> real" where
  "scale10 m ex = (if 0 \<le> ex then m * 10 ^ nat ex else m / 10 ^ nat (- ex))"

text \<open>
  \<open>parseFloat(s)\<close>: leading white space is skipped, then the longest prefix that is a
  decimal numeral is read (an optional sign, then \<open>Infinity\<close> or digits with an optional
  fraction and an optional exponent); \<open>NaN\<close> when there is none. The number is the
  binary64 value nearest to the numeral.
\<close>

definition parseFloat :: "string \<Rightarrow> jsnum" where
  "parseFloat s =
     (let (neg, u) = signOf (dropWhile isSpace s)
      in if startsWith ''Infinity'' u then (if neg then NInf else PInf)
         else
           (let ip = takeWhile isDigit u;
                r1 = dropWhile isDigit u;
                (fp, r2) = (case r1 of
                              [] \<Rightarrow> ([], [])
                            | c # r \<Rightarrow> if c = CHR ''.''
                                       then (takeWhile isDigit r, dropWhile isDigit r)
                                       else ([], r1))
            in if ip = [] \<and> fp = [] then NaN
               else
                 (let m = real (natOfDigits ip) + real (natOfDigits fp) / 10 ^ length fp;
                      v = scale10 m (exponentOf r2)
                  in round64 (if neg then - v else v))))"

text \<open>
  The decimal form of an integer, as a template literal prints a number: plain digits
  below \<open>10\<^sup>2\<^sup>1\<close>, from there on one leading digit, the remaining significant digits
  as a fraction, and the exponent.
\<close>

definition stripZeros :: "string \<Rightarrow> string" where
  "stripZeros ds = rev (dropWhile (\<lambda>c. c = CHR ''0'') (rev ds))"

definition natToString :: "nat \<Rightarrow> string" where
  "natToString n =
     (let ds = digitsOf n
      in if length ds \<le> 21 then ds
         else (let sig = stripZeros (tl ds)
               in hd ds # (if sig = [] then [] else CHR ''.'' # sig)
                  @ ''e+'' @ digitsOf (length ds - 1)))"

text \<open>
  The whole number whose digits are printed for a whole number \<open>n\<close>. Below \<open>2\<^sup>5\<^sup>3\<close> it is
  \<open>n\<close>. From there on several whole numbers are read as the same binary64 number, and
  the digits are those with the fewest significant digits that are still read as \<open>n\<close>, the
  nearest to \<open>n\<close> among these, and the even one of two equally near:
  \<open>candidates n m\<close> are the multiples of \<open>10\<^sup>m\<close> next to \<open>n\<close> that are read as \<open>n\<close>, the
  preferred one first, and the first candidate for the largest \<open>m\<close> is printed.
\<close>

definition candidates :: "nat \<Rightarrow> nat \<Rightarrow> nat list" where
  "candidates n m =
     (let p = 10 ^ m; lo = n div p * p; hi = lo + p
      in filter (\<lambda>c. round64 (real c) = Fin (real n))
           (if n - lo < hi - n then [lo, hi]
            else if hi - n < n - lo then [hi, lo]
            else if even (n div p) then [lo, hi] else [hi, lo]))"

definition printedNat :: "nat \<Rightarrow> nat" where
  "printedNat n =
     (if n < 2 ^ 53 then n
      else (case concat (map (candidates n) (rev [0 ..< length (digitsOf n)])) of
              [] \<Rightarrow> n
            | c # _ \<Rightarrow> c))"

definition intToString :: "int \<Rightarrow> string" where
  "intToString i =
     (if i < 0 then CHR ''-'' # natToString (printedNat (nat (- i)))
      else natToString (printedNat (nat i)))"

text \<open>
  Printing a number. The finite numbers this is applied to are results of \<open>parseInt\<close> and
  \<open>Math.round\<close>, hence integers.
\<close>

fun numToString :: "jsnum \<Rightarrow> string" where
  "numToString NaN = ''NaN''"
| "numToString NInf = ''-Infinity''"
| "numToString (Fin a) = intToString \<lfloor>a\<rfloor>"
| "numToString PInf = ''Infinity''"

text \<open>
  \<open>x.toFixed(d)\<close>: the nearest multiple of \<open>10\<^sup>-\<^sup>d\<close> to the magnitude (the larger one
  when two are equally near), printed with exactly \<open>d\<close> decimals; magnitudes of \<open>10\<^sup>2\<^sup>1\<close>
  and more are printed as a number is.
\<close>

definition padZeros :: "nat \<Rightarrow> string \<Rightarrow> string" where
  "padZeros k ds = replicate (k - length ds) CHR ''0'' @ ds"

fun toFixed :: "nat \<Rightarrow> jsnum \<Rightarrow> string" where
  "toFixed d (Fin a) =
     (if 10 ^ 21 \<le> \<bar>a\<bar> then numToString (Fin a)
      else (let n = nat \<lfloor>\<bar>a\<bar> * 10 ^ d + 1 / 2\<rfloor>;
                ds = padZeros (d + 1) (digitsOf n);
                k = length ds - d
            in (if a < 0 then ''-'' else [])
               @ take k ds @ (if d = 0 then [] else CHR ''.'' # drop k ds)))"
| "toFixed d x = numToString x"

section \<open>Regular expressions of the post-processor\<close>

text \<open>
  \<open>s.replace(/K([\d.]+)/g, fn)\<close> for a letter \<open>K\<close>: every occurrence of the letter
  followed by at least one digit or dot is replaced, together with the whole run of digits
  and dots after it, by \<open>fn\<close> of that run; the search goes on behind the run.
\<close>

function replaceAllParam :: "char \<Rightarrow> (string \<Rightarrow> string) \<Rightarrow> string \<Rightarrow> string" where
  "replaceAllParam k fn [] = []"
| "replaceAllParam k fn (c # cs) =
     (if c = k \<and> takeWhile isNumCh cs \<noteq> []
      then fn (takeWhile isNumCh cs) @ replaceAllParam k fn (dropWhile isNumCh cs)
      else c # replaceAllParam k fn cs)"
  by pat_completeness auto
termination
  by (relation "measure (\<lambda>(k, fn, s). length s)") (auto simp: less_Suc_eq_le length_dropWhile_le)

text \<open>\<open>s.replace(/K([\d.]+)/, fn)\<close>: the first occurrence only.\<close>

fun replaceFirstParam :: "char \<Rightarrow> (string \<Rightarrow> string) \<Rightarrow> string \<Rightarrow> string" where
  "replaceFirstParam k fn [] = []"
| "replaceFirstParam k fn (c # cs) =
     (if c = k \<and> takeWhile isNumCh cs \<noteq> []
      then fn (takeWhile isNumCh cs) @ dropWhile isNumCh cs
      else c # replaceFirstParam k fn cs)"

text \<open>\<open>s.match(/K([\d.]+)/)\<close>: the captured run of the first occurrence.\<close>

fun findParam :: "char \<Rightarrow> string \<Rightarrow> string option" where
  "findParam k [] = None"
| "findParam k (c # cs) =
     (if c = k \<and> takeWhile isNumCh cs \<noteq> [] then Some (takeWhile isNumCh cs)
      else findParam k cs)"

text \<open>
  A prefix test that ignores case: \<open>lo\<close> and \<open>up\<close> are the pattern in lower and in upper
  case.
\<close>

definition startsWithCI :: "string \<Rightarrow> string \<Rightarrow> string \<Rightarrow> bool" where
  "startsWithCI lo up s =
     (length lo \<le> length s \<and>
      list_all2 (\<lambda>(a, b) c. c = a \<or> c = b) (zip lo up) (take (length lo) s))"

text \<open>
  \<open>line.match(/^;\s*(?:LAYER|layer)[:\s_]+(\d+)/i)\<close>: the captured digits. Each greedy
  part is followed by a character outside its own class, so the match is deterministic.
\<close>

definition isLayerSep :: "char \<Rightarrow> bool" where
  "isLayerSep c = (c = CHR '':'' \<or> isSpace c \<or> c = CHR ''_'')"

definition layerComment :: "string \<Rightarrow> string option" where
  "layerComment line =
     (case line of
        [] \<Rightarrow> None
      | c # r \<Rightarrow>
          if c \<noteq> CHR '';'' then None
          else (let r1 = dropWhile isSpace r
                in if \<not> startsWithCI ''layer'' ''LAYER'' r1 then None
                   else (let r2 = drop 5 r1;
                             seps = takeWhile isLayerSep r2;
                             ds = takeWhile isDigit (dropWhile isLayerSep r2)
                         in if seps = [] \<or> ds = [] then None else Some ds)))"

section \<open>The mutation pipeline\<close>

text \<open>
  The pipeline reads its directives from the controls of the page and from two lists of
  the module. They are gathered in one record: the number that \<open>parseInt\<close> returns for each
  numeric control, the two lists, the three check boxes of the eject sequences, and the
  lines that the sequence synthesizer produces for them.
\<close>

record layerPause =
  layer :: int
  command :: string
  customGcode :: string

record injection =
  mode :: string
  number :: int
  gcode :: string

record controls =
  speedSlider :: jsnum
  nozzleOffsetInput :: jsnum
  bedOffsetInput :: jsnum
  fanSlider :: jsnum
  layerPauses :: "layerPause list"
  injections :: "injection list"
  ejectCool :: bool
  ejectShake :: bool
  ejectPush :: bool
  ejectLines :: "string list"

text \<open>\<open>line.split(';')[0].trim()\<close> and \<open>stripped.split(/\s+/)[0]\<close>\<close>

definition stripLine :: "string \<Rightarrow> string" where
  "stripLine line = trim (beforeSemicolon line)"

definition firstWord :: "string \<Rightarrow> string" where
  "firstWord s = hd (splitWs s)"

subsection \<open>Line rewrites\<close>

text \<open>The replacement for one feed-rate match, \<open>`F${newVal}`\<close>.\<close>

definition feedParam :: "jsnum \<Rightarrow> string \<Rightarrow> string" where
  "feedParam multiplier val =
     CHR ''F'' # numToString (mathRound (jmul (parseFloat val) multiplier))"

definition speedLine :: "jsnum \<Rightarrow> string \<Rightarrow> string" where
  "speedLine multiplier line =
     (let stripped = stripLine line
      in if stripped = [] then line
         else (let cmd = firstWord stripped
               in if cmd \<noteq> ''G0'' \<and> cmd \<noteq> ''G1'' then line
                  else replaceAllParam CHR ''F'' (feedParam multiplier) line))"

definition applySpeedOverride :: "controls \<Rightarrow> string list \<Rightarrow> string list" where
  "applySpeedOverride c lines =
     (let pct = speedSlider c
      in if jeq pct (Fin 100) then lines
         else map (speedLine (jdiv pct (Fin 100))) lines)"

text \<open>\<open>x || 0\<close>\<close>

definition orZero :: "jsnum \<Rightarrow> jsnum" where
  "orZero x = (if truthy x then x else Fin 0)"

definition tempParam :: "jsnum \<Rightarrow> string \<Rightarrow> string" where
  "tempParam offset val =
     CHR ''S'' # numToString (jmax (Fin 0) (mathRound (jadd (parseFloat val) offset)))"

definition tempLine :: "jsnum \<Rightarrow> jsnum \<Rightarrow> string \<Rightarrow> string" where
  "tempLine nozzleOffset bedOffset line =
     (let stripped = stripLine line
      in if stripped = [] then line
         else (let cmd = firstWord stripped
               in if (cmd = ''M104'' \<or> cmd = ''M109'') \<and> \<not> jeq nozzleOffset (Fin 0)
                  then replaceFirstParam CHR ''S'' (tempParam nozzleOffset) line
                  else if (cmd = ''M140'' \<or> cmd = ''M190'') \<and> \<not> jeq bedOffset (Fin 0)
                  then replaceFirstParam CHR ''S'' (tempParam bedOffset) line
                  else line))"

definition applyTempTweak :: "controls \<Rightarrow> string list \<Rightarrow> string list" where
  "applyTempTweak c lines =
     (let nozzleOffset = orZero (nozzleOffsetInput c);
          bedOffset = orZero (bedOffsetInput c)
      in if jeq nozzleOffset (Fin 0) \<and> jeq bedOffset (Fin 0) then lines
         else map (tempLine nozzleOffset bedOffset) lines)"

definition fanLine :: "jsnum \<Rightarrow> string \<Rightarrow> string" where
  "fanLine scale line =
     (let stripped = stripLine line
      in if stripped = [] then line
         else (let cmd = firstWord stripped
               in if cmd \<noteq> ''M106'' then line
                  else replaceFirstParam CHR ''S''
                         (\<lambda>val. CHR ''S'' #
                            numToString
                              (jmin (Fin 255)
                                 (jmax (Fin 0) (mathRound (jmul (parseFloat val) scale)))))
                         line))"

definition applyFanOverride :: "controls \<Rightarrow> string list \<Rightarrow> string list" where
  "applyFanOverride c lines =
     (let fanPct = fanSlider c
      in if jeq fanPct (Fin 100) then lines
         else map (fanLine (jdiv fanPct (Fin 100))) lines)"

subsection \<open>Layer locator\<close>

text \<open>
  \<open>findLayerStartLines\<close> keeps a map from layer number to line index, the highest Z seen
  so far and a layer counter. \<open>layerStep i raw\<close> is one round of its loop, on line \<open>raw\<close>
  at index \<open>i\<close>.
\<close>

record locator =
  lmap :: "int \<rightharpoonup> nat"
  currentZ :: jsnum
  layerNum :: int

definition locatorInit :: locator where
  "locatorInit = \<lparr>lmap = Map.empty, currentZ = Fin (- 1), layerNum = 0\<rparr>"

text \<open>\<open>if (map[num] === undefined) map[num] = i\<close>, the only way the map is written.\<close>

definition recordLayer :: "int \<Rightarrow> nat \<Rightarrow> (int \<rightharpoonup> nat) \<Rightarrow> (int \<rightharpoonup> nat)" where
  "recordLayer num i m = (if m num = None then m(num \<mapsto> i) else m)"

definition layerStep :: "nat \<Rightarrow> string \<Rightarrow> locator \<Rightarrow> locator" where
  "layerStep i raw st =
     (let line = trim raw
      in case layerComment line of
           Some ds \<Rightarrow>
             (let num = int (natOfDigits ds)
              in st\<lparr>lmap := recordLayer num i (lmap st)\<rparr>)
         | None \<Rightarrow>
             if line = [] \<or> startsWith '';'' line then st
             else (let cmd = trim (beforeSemicolon line)
                   in if cmd = [] then st
                      else (let code = hd (splitWs cmd)
                            in if code = ''G0'' \<or> code = ''G1'' then
                                 (case findParam CHR ''Z'' cmd of
                                    None \<Rightarrow> st
                                  | Some zs \<Rightarrow>
                                      (let z = parseFloat zs
                                       in if jgt z (currentZ st) then
                                            (let n = layerNum st + 1
                                             in st\<lparr>currentZ := z, layerNum := n,
                                                  lmap := recordLayer n i (lmap st)\<rparr>)
                                          else st))
                               else st)))"

fun locate :: "nat \<Rightarrow> string list \<Rightarrow> locator \<Rightarrow> locator" where
  "locate i [] st = st"
| "locate i (l # ls) st = locate (Suc i) ls (layerStep i l st)"

definition findLayerStartLines :: "string list \<Rightarrow> (int \<rightharpoonup> nat)" where
  "findLayerStartLines lines = lmap (locate 0 lines locatorInit)"

subsection \<open>Insertions\<close>

text \<open>\<open>lines.splice(idx, 0, ...ins)\<close>; an index beyond the end inserts at the end.\<close>

definition spliceAt :: "nat \<Rightarrow> 'a list \<Rightarrow> 'a list \<Rightarrow> 'a list" where
  "spliceAt idx ins xs = take idx xs @ ins @ drop idx xs"

definition pauseBlock :: "layerPause \<Rightarrow> string list" where
  "pauseBlock p =
     [''; --- Layer Pause at Layer '' @ intToString (layer p) @ '' ---'']
     @ (if command p = ''custom'' \<and> customGcode p \<noteq> [] then splitLines (customGcode p)
        else [command p @ '' ; Pause at layer '' @ intToString (layer p)])
     @ [''; --- End Layer Pause ---'']"

text \<open>
  \<open>[...xs].sort((a, b) => key(b) - key(a))\<close>, a stable sort by descending key, is
  \<^const>\<open>sort_key\<close> on the negated key.
\<close>

definition applyLayerPauses :: "controls \<Rightarrow> string list \<Rightarrow> string list" where
  "applyLayerPauses c lines =
     (if layerPauses c = [] then lines
      else (let layerStartLines = findLayerStartLines lines;
                sortedPauses = sort_key (\<lambda>p. - layer p) (layerPauses c)
            in fold (\<lambda>pause ls.
                       case layerStartLines (layer pause) of
                         None \<Rightarrow> ls
                       | Some insertIdx \<Rightarrow> spliceAt insertIdx (pauseBlock pause) ls)
                 sortedPauses lines))"

definition layerInjectBlock :: "injection \<Rightarrow> string list" where
  "layerInjectBlock ij =
     [''; --- Custom Injection at Layer '' @ intToString (number ij) @ '' ---'']
     @ splitLines (gcode ij)
     @ [''; --- End Custom Injection ---'']"

definition lineInjectBlock :: "injection \<Rightarrow> string list" where
  "lineInjectBlock ij =
     [''; --- Custom Injection at Line '' @ intToString (number ij) @ '' ---'']
     @ splitLines (gcode ij)
     @ [''; --- End Custom Injection ---'']"

definition applyInjections :: "controls \<Rightarrow> string list \<Rightarrow> string list" where
  "applyInjections c lines =
     (if injections c = [] then lines
      else
        (let layerInjects = filter (\<lambda>i. mode i = ''layer'') (injections c);
             lineInjects = filter (\<lambda>i. mode i = ''line'') (injections c);
             lines1 =
               (if layerInjects \<noteq> [] then
                  (let layerStartLines = findLayerStartLines lines;
                       sorted = sort_key (\<lambda>i. - number i) layerInjects
                   in fold (\<lambda>ij ls.
                              case layerStartLines (number ij) of
                                None \<Rightarrow> ls
                              | Some insertIdx \<Rightarrow> spliceAt insertIdx (layerInjectBlock ij) ls)
                        sorted lines)
                else lines)
         in if lineInjects \<noteq> [] then
              (let sorted = sort_key (\<lambda>i. - number i) lineInjects
               in fold (\<lambda>ij ls.
                          (let insertIdx = number ij - 1
                           in if insertIdx < 0 \<or> int (length ls) < insertIdx then ls
                              else spliceAt (nat insertIdx) (lineInjectBlock ij) ls))
                    sorted lines1)
            else lines1))"

text \<open>
  The eject sequences are appended behind everything else, and only when one of the three
  is enabled; what they consist of is \<^const>\<open>ejectLines\<close>.
\<close>

definition applyAutoEject :: "controls \<Rightarrow> string list \<Rightarrow> string list" where
  "applyAutoEject c lines =
     (if \<not> ejectCool c \<and> \<not> ejectShake c \<and> \<not> ejectPush c then lines
      else lines @ ejectLines c)"

subsection \<open>The whole pipeline\<close>

text \<open>
  \<open>applyAndDownload\<close> returns at once, with nothing to save, when no text is loaded (the
  text is \<open>null\<close> or empty); otherwise the six stages run in their fixed order and the
  joined lines are the text offered for saving.
\<close>

definition applyAndDownload :: "controls \<Rightarrow> string \<Rightarrow> string option" where
  "applyAndDownload c gcodeRawText =
     (if gcodeRawText = [] then None
      else (let lines = splitLines gcodeRawText;
                lines = applySpeedOverride c lines;
                lines = applyTempTweak c lines;
                lines = applyFanOverride c lines;
                lines = applyLayerPauses c lines;
                lines = applyInjections c lines;
                lines = applyAutoEject c lines
            in Some (joinLines lines)))"

text \<open>
  The empty directive set: both scales at 100 percent, both offsets 0, no pause, no
  injection, no eject sequence.
\<close>

definition noDirectives :: "string list \<Rightarrow> controls" where
  "noDirectives ej =
     \<lparr>speedSlider = Fin 100, nozzleOffsetInput = Fin 0, bedOffsetInput = Fin 0,
      fanSlider = Fin 100, layerPauses = [], injections = [],
      ejectCool = False, ejectShake = False, ejectPush = False, ejectLines = ej\<rparr>"

section \<open>The metrics extractor\<close>

text \<open>
  The record that \<open>parse\<close> returns. A warning is a level and a message; the five message
  texts are the constructors of \<open>message\<close>, with the number that the text quotes.
\<close>

datatype level = Error | Warning | Info

datatype message =
    ThinDimensions \<comment> \<open>very thin dimensions detected\<close>
  | HighRetraction nat \<comment> \<open>high retraction count, quoted\<close>
  | LongPrint \<comment> \<open>long print with moderate detail\<close>
  | HighNozzleTemp jsnum \<comment> \<open>high nozzle temperature, quoted\<close>
  | NoHeatedBed \<comment> \<open>no heated bed commands detected\<close>

record warning =
  level :: level
  message :: message

record dims =
  dimX :: jsnum
  dimY :: jsnum
  dimZ :: jsnum

record metrics =
  layerCount :: nat
  layerHeight :: jsnum
  firstLayerHeight :: jsnum
  estimatedTime_min :: jsnum
  filamentLength_mm :: jsnum
  filamentWeight_g :: jsnum
  maxX :: jsnum
  maxY :: jsnum
  maxZ :: jsnum
  minX :: jsnum
  minY :: jsnum
  nozzleTemp :: jsnum
  bedTemp :: jsnum
  maxSpeed :: jsnum
  retractionCount :: nat
  retractionDistance :: jsnum
  travelDistance :: jsnum
  printMoves :: nat
  travelMoves :: nat
  warnings :: "warning list"
  dimensions :: dims

definition resultInit :: metrics where
  "resultInit =
     \<lparr>layerCount = 0, layerHeight = Fin 0, firstLayerHeight = Fin 0,
      estimatedTime_min = Fin 0, filamentLength_mm = Fin 0, filamentWeight_g = Fin 0,
      maxX = Fin 0, maxY = Fin 0, maxZ = Fin 0, minX = PInf, minY = PInf,
      nozzleTemp = Fin 0, bedTemp = Fin 0, maxSpeed = Fin 0,
      retractionCount = 0, retractionDistance = Fin 0, travelDistance = Fin 0,
      printMoves = 0, travelMoves = 0, warnings = [],
      dimensions = \<lparr>dimX = Fin 0, dimY = Fin 0, dimZ = Fin 0\<rparr>\<rparr>"

text \<open>
  The local variables of one pass. \<open>layerHeights\<close> is a \<open>Set\<close>, kept as the list of its
  members in the order they were added; \<open>currentZ_reg\<close> is the \<open>currentZ\<close> of \<open>parse\<close>.
\<close>

record register =
  currentZ_reg :: jsnum
  lastX :: jsnum
  lastY :: jsnum
  lastZ :: jsnum
  lastE :: jsnum
  currentE :: jsnum
  isAbsoluteE :: bool
  layerHeights :: "jsnum list"
  speedValues :: "jsnum list"

definition registerInit :: register where
  "registerInit =
     \<lparr>currentZ_reg = Fin 0, lastX = Fin 0, lastY = Fin 0, lastZ = Fin 0, lastE = Fin 0,
      currentE = Fin 0, isAbsoluteE = True, layerHeights = [], speedValues = []\<rparr>"

text \<open>\<open>set.add(v)\<close>\<close>

definition setAdd :: "'a \<Rightarrow> 'a list \<Rightarrow> 'a list" where
  "setAdd v xs = (if v \<in> set xs then xs else xs @ [v])"

subsection \<open>Comment lines\<close>

text \<open>\<open>line.match(/(\d+)/)\<close>: the first run of digits.\<close>

definition firstDigits :: "string \<Rightarrow> string option" where
  "firstDigits line =
     (let r = dropWhile (\<lambda>c. \<not> isDigit c) line
      in if r = [] then None else Some (takeWhile isDigit r))"

text \<open>\<open>parseInt(ds)\<close> on a run of digits\<close>

definition parseIntDigits :: "string \<Rightarrow> jsnum" where
  "parseIntDigits ds = round64 (real (natOfDigits ds))"

text \<open>
  \<open>line.match(/([\d.]+)\s*m/)\<close>: the first run of digits and dots that is followed,
  after optional white space, by the letter \<open>m\<close>. A shorter piece of a run is never
  followed by it, so only whole runs are tried.
\<close>

function matchMeters :: "string \<Rightarrow> string option" where
  "matchMeters [] = None"
| "matchMeters (c # cs) =
     (if isNumCh c then
        (let rest = dropWhile isNumCh cs
         in case dropWhile isSpace rest of
              [] \<Rightarrow> matchMeters rest
            | m # _ \<Rightarrow> if m = CHR ''m'' then Some (c # takeWhile isNumCh cs)
                       else matchMeters rest)
      else matchMeters cs)"
  by pat_completeness auto
termination
  by (relation "measure length") (auto simp: less_Suc_eq_le length_dropWhile_le)

definition metaLine :: "string \<Rightarrow> metrics \<Rightarrow> metrics" where
  "metaLine line r =
     (let r1 =
            (if startsWith '';TIME:'' line \<or> startsWith ''; estimated printing time'' line
             then (case firstDigits line of
                     None \<Rightarrow> r
                   | Some ds \<Rightarrow>
                       if includesStr ''TIME:'' line
                       then r\<lparr>estimatedTime_min :=
                              mathRound (jdiv (parseIntDigits ds) (Fin 60))\<rparr>
                       else r)
             else r)
      in if startsWith '';Filament used:'' line \<or> startsWith ''; filament used'' line
         then (case matchMeters line of
                 None \<Rightarrow> r1
               | Some run \<Rightarrow> r1\<lparr>filamentLength_mm := jmul (parseFloat run) (Fin 1000)\<rparr>)
         else r1)"

subsection \<open>Command lines\<close>

text \<open>
  The parameters of a command: for every word after the first, its first character is
  the key and \<open>parseFloat\<close> of the rest the value; a later word overrides an earlier one
  with the same key.
\<close>

definition paramsOf :: "string list \<Rightarrow> (char \<rightharpoonup> jsnum)" where
  "paramsOf parts =
     fold (\<lambda>p m. case p of [] \<Rightarrow> m | k # v \<Rightarrow> m(k \<mapsto> parseFloat v)) (tl parts) Map.empty"

text \<open>\<open>params.K !== undefined ? params.K : other\<close>\<close>

definition paramOr :: "(char \<rightharpoonup> jsnum) \<Rightarrow> char \<Rightarrow> jsnum \<Rightarrow> jsnum" where
  "paramOr params k other = (case params k of None \<Rightarrow> other | Some v \<Rightarrow> v)"

text \<open>\<open>params.K\<close> in a condition: defined, and neither \<open>NaN\<close> nor zero.\<close>

definition paramTruthy :: "(char \<rightharpoonup> jsnum) \<Rightarrow> char \<Rightarrow> bool" where
  "paramTruthy params k = (case params k of None \<Rightarrow> False | Some v \<Rightarrow> truthy v)"

text \<open>
  The extrusion of a move and its change against the register, in the absolute or the
  relative mode.
\<close>

definition extrusion :: "(char \<rightharpoonup> jsnum) \<Rightarrow> register \<Rightarrow> jsnum" where
  "extrusion params g =
     paramOr params CHR ''E'' (if isAbsoluteE g then currentE g else Fin 0)"

definition eChange :: "(char \<rightharpoonup> jsnum) \<Rightarrow> register \<Rightarrow> jsnum" where
  "eChange params g =
     (let e = extrusion params g in if isAbsoluteE g then jsub e (currentE g) else e)"

text \<open>The body of \<open>if (code === 'G0' || code === 'G1')\<close>.\<close>

definition motion :: "(char \<rightharpoonup> jsnum) \<Rightarrow> metrics \<times> register \<Rightarrow> metrics \<times> register" where
  "motion params rg =
     (let r = fst rg; g = snd rg;
          x = paramOr params CHR ''X'' (lastX g);
          y = paramOr params CHR ''Y'' (lastY g);
          z = paramOr params CHR ''Z'' (lastZ g);
          e = extrusion params g;
          g1 = (if paramTruthy params CHR ''F''
                then g\<lparr>speedValues :=
                        speedValues g @ [jdiv (paramOr params CHR ''F'' NaN) (Fin 60)]\<rparr>
                else g);
          g2 = (if \<not> jeq z (lastZ g)
                then g1\<lparr>currentZ_reg := z,
                        layerHeights :=
                          (if jgt z (Fin 0)
                           then setAdd (parseFloat (toFixed 3 z)) (layerHeights g1)
                           else layerHeights g1)\<rparr>
                else g1);
          r1 = (if \<not> jeq z (lastZ g) then r\<lparr>maxZ := jmax (maxZ r) z\<rparr> else r);
          r2 = (if params CHR ''X'' \<noteq> None \<or> params CHR ''Y'' \<noteq> None then
                  (let r' = r1\<lparr>maxX := jmax (maxX r1) x, maxY := jmax (maxY r1) y,
                               minX := jmin (minX r1) x, minY := jmin (minY r1) y\<rparr>;
                       dist = jsqrt (jadd (jmul (jsub x (lastX g)) (jsub x (lastX g)))
                                          (jmul (jsub y (lastY g)) (jsub y (lastY g))));
                       ec = eChange params g
                   in if jgt ec (Fin 0) then r'\<lparr>printMoves := printMoves r' + 1\<rparr>
                      else if jlt ec (Fin 0)
                      then r'\<lparr>retractionCount := retractionCount r' + 1,
                              retractionDistance := jadd (retractionDistance r') (jabs ec)\<rparr>
                      else r'\<lparr>travelMoves := travelMoves r' + 1,
                              travelDistance := jadd (travelDistance r') dist\<rparr>)
                else r1);
          g3 = g2\<lparr>lastX := x, lastY := y, lastZ := z,
                  currentE := (if isAbsoluteE g then e else currentE g)\<rparr>
      in (r2, g3))"

text \<open>
  What the loop of \<open>parse\<close> does with a command line once it is cut into its code and
  its parameters.
\<close>

definition command :: "string \<Rightarrow> (char \<rightharpoonup> jsnum) \<Rightarrow> metrics \<times> register \<Rightarrow> metrics \<times> register" where
  "command code params rg =
     (let rg1 = (if code = ''G0'' \<or> code = ''G1'' then motion params rg else rg);
          r1 = fst rg1;
          g1 = snd rg1;
          g2 = (if code = ''M82'' then g1\<lparr>isAbsoluteE := True\<rparr> else g1);
          g3 = (if code = ''M83'' then g2\<lparr>isAbsoluteE := False\<rparr> else g2);
          g4 = (if code = ''G92'' \<and> params CHR ''E'' \<noteq> None
                then g3\<lparr>currentE := paramOr params CHR ''E'' NaN\<rparr> else g3);
          r2 = (if (code = ''M104'' \<or> code = ''M109'') \<and> paramTruthy params CHR ''S''
                then r1\<lparr>nozzleTemp := jmax (nozzleTemp r1) (paramOr params CHR ''S'' NaN)\<rparr>
                else r1);
          r3 = (if (code = ''M140'' \<or> code = ''M190'') \<and> paramTruthy params CHR ''S''
                then r2\<lparr>bedTemp := jmax (bedTemp r2) (paramOr params CHR ''S'' NaN)\<rparr>
                else r2)
      in (r3, g4))"

text \<open>The body of the loop of \<open>parse\<close>, on one line.\<close>

definition parseLine :: "string \<Rightarrow> metrics \<times> register \<Rightarrow> metrics \<times> register" where
  "parseLine raw rg =
     (let line = trim raw
      in if line = [] \<or> startsWith '';'' line then (metaLine line (fst rg), snd rg)
         else
           (let cmd = trim (beforeSemicolon line)
            in if cmd = [] then rg
               else (let parts = splitWs cmd;
                         code = hd parts;
                         params = paramsOf parts
                     in command code params rg)))"

text \<open>
  The code and the parameters that the loop reads from a line; none for a blank line and
  for a comment line.
\<close>

definition tokenize :: "string \<Rightarrow> (string \<times> (char \<rightharpoonup> jsnum)) option" where
  "tokenize raw =
     (let line = trim raw
      in if line = [] \<or> startsWith '';'' line then None
         else
           (let cmd = trim (beforeSemicolon line)
            in if cmd = [] then None
               else (let parts = splitWs cmd in Some (hd parts, paramsOf parts))))"

subsection \<open>After the loop\<close>

text \<open>
  \<open>xs.sort((a, b) => a - b)\<close> on numbers that are not \<open>NaN\<close>: ascending, the infinities
  at the two ends.
\<close>

fun numKey :: "jsnum \<Rightarrow> nat \<times> real" where
  "numKey NInf = (0, 0)"
| "numKey (Fin a) = (1, a)"
| "numKey PInf = (2, 0)"
| "numKey NaN = (3, 0)"

definition sortNums :: "jsnum list \<Rightarrow> jsnum list" where
  "sortNums xs = sort_key numKey xs"

text \<open>The differences of neighbours among the first 20 sorted heights, to 3 decimals.\<close>

definition heightDiffs :: "jsnum list \<Rightarrow> jsnum list" where
  "heightDiffs sh =
     map (\<lambda>i. parseFloat (toFixed 3 (jsub (sh ! i) (sh ! (i - 1)))))
       [1 ..< min (length sh) 20]"

text \<open>
  The object \<open>counts\<close>, as the list of its entries in the order the keys were created.
  A key is the printed form of a difference; the printed forms of two numbers are equal
  only if the numbers are, and reading a printed number gives it back, so the number
  itself stands for the key. \<open>bump d\<close> is \<open>counts[d] = (counts[d] || 0) + 1\<close>.
\<close>

fun bump :: "jsnum \<Rightarrow> (jsnum \<times> nat) list \<Rightarrow> (jsnum \<times> nat) list" where
  "bump d [] = [(d, 1)]"
| "bump d ((k, n) # cs) = (if k = d then (k, n + 1) # cs else (k, n) # bump d cs)"

definition countDiffs :: "jsnum list \<Rightarrow> (jsnum \<times> nat) list" where
  "countDiffs ds = fold bump ds []"

text \<open>
  \<open>Object.entries(counts)\<close> lists first the keys that are array indices (the integers
  from 0 to \<open>2\<^sup>3\<^sup>2 - 2\<close>), in ascending order, and then the other keys in the order
  they were created.
\<close>

fun isArrayIndex :: "jsnum \<Rightarrow> bool" where
  "isArrayIndex (Fin a) = (of_int \<lfloor>a\<rfloor> = a \<and> 0 \<le> a \<and> a < 2 ^ 32 - 1)"
| "isArrayIndex _ = False"

definition objectEntries :: "(jsnum \<times> nat) list \<Rightarrow> (jsnum \<times> nat) list" where
  "objectEntries cs =
     sort_key (\<lambda>e. numKey (fst e)) (filter (\<lambda>e. isArrayIndex (fst e)) cs)
     @ filter (\<lambda>e. \<not> isArrayIndex (fst e)) cs"

text \<open>
  \<open>parseFloat(Object.entries(counts).sort((a, b) => b[1] - a[1])[0]?.[0] || 0.2)\<close>: the
  key of the first entry after a stable sort by descending count.
\<close>

definition mostCommon :: "(jsnum \<times> nat) list \<Rightarrow> jsnum" where
  "mostCommon cs =
     (case sort_key (\<lambda>e. - int (snd e)) (objectEntries cs) of
        [] \<Rightarrow> round64 (2 / 10)
      | e # _ \<Rightarrow> fst e)"

definition postLayers :: "jsnum list \<Rightarrow> metrics \<Rightarrow> metrics" where
  "postLayers sortedHeights r =
     (let r1 = r\<lparr>layerCount := length sortedHeights\<rparr>
      in if 2 \<le> length sortedHeights
         then r1\<lparr>firstLayerHeight := sortedHeights ! 0,
                 layerHeight := mostCommon (countDiffs (heightDiffs sortedHeights))\<rparr>
         else r1)"

text \<open>\<open>Math.max(...xs)\<close>\<close>

definition maxOf :: "jsnum list \<Rightarrow> jsnum" where
  "maxOf xs = fold (\<lambda>x m. jmax m x) xs NInf"

definition postProcess :: "metrics \<times> register \<Rightarrow> metrics" where
  "postProcess rg =
     (let r = fst rg; g = snd rg;
          r1 = postLayers (sortNums (layerHeights g)) r;
          r2 = (if speedValues g \<noteq> [] then r1\<lparr>maxSpeed := mathRound (maxOf (speedValues g))\<rparr>
                else r1);
          r3 = (if jgt (filamentLength_mm r2) (Fin 0) then
                  (let rad = jdiv (round64 (175 / 100)) (Fin 2);
                       volume_mm3 = jmul (jmul (jmul mathPI rad) rad)
                                      (filamentLength_mm r2)
                   in r2\<lparr>filamentWeight_g :=
                          parseFloat (toFixed 1
                            (jdiv (jmul volume_mm3 (round64 (124 / 100))) (Fin 1000)))\<rparr>)
                else r2);
          r4 = (if jeq (minX r3) PInf then r3\<lparr>minX := Fin 0\<rparr> else r3);
          r5 = (if jeq (minY r4) PInf then r4\<lparr>minY := Fin 0\<rparr> else r4)
      in r5\<lparr>dimensions :=
              \<lparr>dimX = parseFloat (toFixed 1 (jsub (maxX r5) (minX r5))),
               dimY = parseFloat (toFixed 1 (jsub (maxY r5) (minY r5))),
               dimZ = parseFloat (toFixed 1 (maxZ r5))\<rparr>\<rparr>)"

subsection \<open>Diagnostics\<close>

definition addWarning :: "level \<Rightarrow> message \<Rightarrow> metrics \<Rightarrow> metrics" where
  "addWarning l m r = r\<lparr>warnings := warnings r @ [\<lparr>level = l, message = m\<rparr>]\<rparr>"

definition detectWarnings :: "metrics \<Rightarrow> metrics" where
  "detectWarnings r =
     (let r1 = (if jlt (dimX (dimensions r)) (round64 (4 / 10)) \<or>
                   jlt (dimY (dimensions r)) (round64 (4 / 10))
                then addWarning Warning ThinDimensions r else r);
          r2 = (if 5000 < retractionCount r1
                then addWarning Warning (HighRetraction (retractionCount r1)) r1 else r1);
          r3 = (if jgt (estimatedTime_min r2) (Fin 600) \<and>
                   jgt (layerHeight r2) (round64 (15 / 100))
                then addWarning Info LongPrint r2 else r2);
          r4 = (if jgt (nozzleTemp r3) (Fin 260)
                then addWarning Warning (HighNozzleTemp (nozzleTemp r3)) r3 else r3)
      in if jeq (bedTemp r4) (Fin 0) \<and> 100 < printMoves r4
         then addWarning Error NoHeatedBed r4 else r4)"

subsection \<open>The whole pass\<close>

definition parseLines :: "string list \<Rightarrow> metrics \<times> register" where
  "parseLines lines = fold parseLine lines (resultInit, registerInit)"

text \<open>What \<open>parse\<close> does behind \<open>gcodeText.split('\\n')\<close>.\<close>

definition analyse :: "string list \<Rightarrow> metrics" where
  "analyse lines = detectWarnings (postProcess (parseLines lines))"

definition parse :: "string \<Rightarrow> metrics" where
  "parse gcodeText = analyse (splitLines gcodeText)"

section \<open>Notions of the specification\<close>

text \<open>
  The Z-heights that the motion commands of a stream visit, one per motion command: the
  Z parameter of the command, or the height already reached when it has none. The
  machine starts at height 0.
\<close>

fun zTrace :: "jsnum \<Rightarrow> string list \<Rightarrow> jsnum list" where
  "zTrace z [] = []"
| "zTrace z (l # ls) =
     (case tokenize l of
        None \<Rightarrow> zTrace z ls
      | Some (code, params) \<Rightarrow>
          if code = ''G0'' \<or> code = ''G1''
          then paramOr params CHR ''Z'' z # zTrace (paramOr params CHR ''Z'' z) ls
          else zTrace z ls)"

definition visitedZ :: "string list \<Rightarrow> jsnum list" where
  "visitedZ lines = zTrace (Fin 0) lines"

text \<open>A height rounded as the extractor rounds it, \<open>parseFloat(z.toFixed(3))\<close>.\<close>

definition round3 :: "jsnum \<Rightarrow> jsnum" where
  "round3 z = parseFloat (toFixed 3 z)"

text \<open>The positive heights visited, rounded.\<close>

definition roundedHeights :: "string list \<Rightarrow> jsnum list" where
  "roundedHeights lines = map round3 (filter (\<lambda>z. jgt z (Fin 0)) (visitedZ lines))"

text \<open>
  The most frequent member of a list, the first-seen one among those that are equally
  frequent.
\<close>

definition modeFirstSeen :: "jsnum list \<Rightarrow> jsnum" where
  "modeFirstSeen ds =
     (case filter (\<lambda>d. \<forall>d' \<in> set ds. count_list ds d' \<le> count_list ds d) ds of
        [] \<Rightarrow> round64 (2 / 10)
      | d # _ \<Rightarrow> d)"

text \<open>A line that sets the bed temperature: its code is \<open>M140\<close> or \<open>M190\<close>.\<close>

definition isBedCommand :: "string \<Rightarrow> bool" where
  "isBedCommand l =
     (case tokenize l of None \<Rightarrow> False | Some (code, params) \<Rightarrow> code = ''M140'' \<or> code = ''M190'')"


text \<open>
  The command code of a line, as each rewrite computes it: the first word of the line
  without its comment; none when nothing is left.
\<close>

definition lineCommand :: "string \<Rightarrow> string option" where
  "lineCommand line =
     (let stripped = stripLine line
      in if stripped = [] then None else Some (firstWord stripped))"

text \<open>The distinct rounded heights in ascending order, and the differences among the first 20.\<close>

definition sortedHeights :: "string list \<Rightarrow> jsnum list" where
  "sortedHeights lines = sortNums (remdups (roundedHeights lines))"

definition layerDeltas :: "string list \<Rightarrow> jsnum list" where
  "layerDeltas lines = heightDiffs (sortedHeights lines)"

text \<open>
  An invariant of the pass: a positive height at which the register stands has been
  recorded.
\<close>

definition heightSeen :: "register \<Rightarrow> bool" where
  "heightSeen g = (jgt (lastZ g) (Fin 0) \<longrightarrow> round3 (lastZ g) \<in> set (layerHeights g))"

text \<open>
  A command line whose feed-rate words are plain: every word that begins with \<open>F\<close>
  continues with digits and dots only.
\<close>

definition plainFeedWords :: "string \<Rightarrow> bool" where
  "plainFeedWords line =
     (\<forall>p \<in> set (splitWs (stripLine line)).
        p \<noteq> [] \<and> hd p = CHR ''F'' \<longrightarrow> (\<forall>c \<in> set (tl p). isNumCh c))"

text \<open>Half of a number, rounded: what the speed override at 50 percent computes.\<close>

definition halfRounded :: "jsnum \<Rightarrow> jsnum" where
  "halfRounded v = mathRound (jmul v (Fin (1 / 2)))"

(*DEFS-END*)

section \<open>Evaluation on concrete inputs\<close>

lemmas str_eval = isSpace_def isDigit_def isNumCh_def trim_def splitLines_def joinLines_def
  beforeSemicolon_def startsWith_def stripLine_def firstWord_def lineCommand_def
  layerComment_def startsWithCI_def isLayerSep_def

lemmas num_eval = parseFloat_def natOfDigits_def digitVal_def scale10_def natToString_def
  intToString_def digitsOf.simps digitChar_def jsub_def jgt_def jeq_def jmax_def jmin_def
  truthy_def infOfSign_def orZero_def feedParam_def round64_def exponent2_def pow2_def
  roundEven_def bitLength.simps printedNat_def

text \<open>
  For the metrics extractor: the definitions are unfolded with \<open>cong: let_weak_cong\<close>, so
  that a bound value is computed before it is substituted.
\<close>

lemmas parse_eval = parse_def analyse_def parseLines_def parseLine_def command_def motion_def
  paramsOf_def paramOr_def paramTruthy_def extrusion_def eChange_def metaLine_def setAdd_def
  resultInit_def registerInit_def postProcess_def postLayers_def sortNums_def heightDiffs_def
  countDiffs_def objectEntries_def mostCommon_def maxOf_def detectWarnings_def addWarning_def
  firstDigits_def parseIntDigits_def padZeros_def tokenize_def isBedCommand_def visitedZ_def
  round3_def roundedHeights_def Let_def

section \<open>Splitting and joining\<close>

lemma splitOn_nonempty: "splitOn c s \<noteq> []"
  by (induction s) (auto split: list.splits)

lemma joinWith_splitOn: "joinWith c (splitOn c s) = s"
proof (induction s)
  case Nil
  show ?case by simp
next
  case (Cons x xs)
  obtain w ws where sp: "splitOn c xs = w # ws"
    using splitOn_nonempty [of c xs] by (cases "splitOn c xs") auto
  show ?case
  proof (cases "x = c")
    case True
    with Cons sp show ?thesis by simp
  next
    case False
    with Cons sp show ?thesis by (cases ws) auto
  qed
qed

section \<open>The pipeline without directives\<close>

lemma stages_noDirectives:
  "applySpeedOverride (noDirectives ej) ls = ls"
  "applyTempTweak (noDirectives ej) ls = ls"
  "applyFanOverride (noDirectives ej) ls = ls"
  "applyLayerPauses (noDirectives ej) ls = ls"
  "applyInjections (noDirectives ej) ls = ls"
  "applyAutoEject (noDirectives ej) ls = ls"
  by (simp_all add: applySpeedOverride_def applyTempTweak_def applyFanOverride_def
      applyLayerPauses_def applyInjections_def applyAutoEject_def noDirectives_def
      jeq_def orZero_def truthy_def)

text \<open>
  C1, as stated: for every input text, the pipeline with the empty directive set produces
  an output text equal to the input. On the empty text \<open>applyAndDownload\<close> returns before
  its first stage and produces no output at all.
\<close>

theorem mutate_identity_empty_text: "applyAndDownload (noDirectives []) [] = None"
  by (simp add: applyAndDownload_def)

text \<open>
  C1, amended: for every input text that is not empty, the pipeline with the empty
  directive set produces an output text equal to the input.
\<close>

theorem mutate_identity:
  "text \<noteq> [] \<Longrightarrow> applyAndDownload (noDirectives ej) text = Some text"
  by (simp add: applyAndDownload_def stages_noDirectives splitLines_def joinLines_def
      joinWith_splitOn)

theorem mutate_identity_witness:
  "''G28'' \<noteq> [] \<and> applyAndDownload (noDirectives []) ''G28'' = Some ''G28''"
  using mutate_identity [of "''G28''" "[]"] by simp

section \<open>Order of the layer pauses\<close>






section \<open>The layer-index map\<close>

lemma recordLayer_keeps: "m k = Some i \<Longrightarrow> recordLayer n j m k = Some i"
  by (auto simp: recordLayer_def)

lemma layerStep_lmap:
  "lmap (layerStep j l st) = lmap st \<or> (\<exists>n. lmap (layerStep j l st) = recordLayer n j (lmap st))"
  unfolding layerStep_def Let_def by (simp split: option.split) blast

lemma layerStep_keeps: "lmap st k = Some i \<Longrightarrow> lmap (layerStep j l st) k = Some i"
  using layerStep_lmap [of j l st] recordLayer_keeps [of "lmap st" k i _ j] by auto

lemma locate_keeps: "lmap st k = Some i \<Longrightarrow> lmap (locate j ls st) k = Some i"
  by (induction ls arbitrary: j st) (auto simp: layerStep_keeps)

lemma locate_append: "locate j (xs @ ys) st = locate (j + length xs) ys (locate j xs st)"
  by (induction xs arbitrary: j st) auto

text \<open>
  C6: the map of the layer locator is first-match-wins. For every line sequence, every
  layer number \<open>k\<close> and every \<open>n\<close>: when the first \<open>n\<close> lines have mapped \<open>k\<close> to the line
  index \<open>i\<close>, the finished map still maps \<open>k\<close> to \<open>i\<close>, whatever the later lines are (layer
  annotations for \<open>k\<close> or Z increases that bring the counter to \<open>k\<close>).
\<close>

theorem first_match_wins:
  assumes "lmap (locate 0 (take n lines) locatorInit) k = Some i"
  shows "findLayerStartLines lines k = Some i"
proof -
  have "locate 0 lines locatorInit =
        locate (0 + length (take n lines)) (drop n lines) (locate 0 (take n lines) locatorInit)"
    using locate_append [of 0 "take n lines" "drop n lines" locatorInit] by simp
  then show ?thesis
    unfolding findLayerStartLines_def using locate_keeps [OF assms] by simp
qed

theorem first_match_wins_witness:
  "lmap (locate 0 (take 1 ['';LAYER:1'', ''G1 Z0.2'', ''; layer 1'', ''G1 Z0.4''])
           locatorInit) 1 = Some 0 \<and>
   findLayerStartLines ['';LAYER:1'', ''G1 Z0.2'', ''; layer 1'', ''G1 Z0.4''] 1 = Some 0"
proof -
  have h: "lmap (locate 0 (take 1 ['';LAYER:1'', ''G1 Z0.2'', ''; layer 1'', ''G1 Z0.4''])
                   locatorInit) 1 = Some 0"
    by (simp add: locatorInit_def layerStep_def recordLayer_def str_eval num_eval)
  show ?thesis using h first_match_wins [OF h] by simp
qed

section \<open>The line rewrites\<close>

lemma speedLine_other:
  "lineCommand l \<notin> {Some ''G0'', Some ''G1''} \<Longrightarrow> speedLine m l = l"
  by (auto simp: speedLine_def lineCommand_def Let_def)

lemma tempLine_other:
  "lineCommand l \<notin> {Some ''M104'', Some ''M109'', Some ''M140'', Some ''M190''}
   \<Longrightarrow> tempLine a b l = l"
  by (auto simp: tempLine_def lineCommand_def Let_def)

lemma fanLine_other: "lineCommand l \<noteq> Some ''M106'' \<Longrightarrow> fanLine m l = l"
  by (auto simp: fanLine_def lineCommand_def Let_def)

text \<open>
  C7: each of the three line rewrites (speed scale, temperature offsets, fan scale)
  returns, for every line sequence and every setting, a sequence of the same length, and
  leaves unchanged every line whose command code is not one it targets: \<open>G0\<close> and \<open>G1\<close>
  for the speed scale, \<open>M104\<close>, \<open>M109\<close>, \<open>M140\<close> and \<open>M190\<close> for the temperature offsets,
  \<open>M106\<close> for the fan scale.
\<close>

theorem rewrites_frame:
  "length (applySpeedOverride c lines) = length lines \<and>
   length (applyTempTweak c lines) = length lines \<and>
   length (applyFanOverride c lines) = length lines \<and>
   (\<forall>i < length lines.
      (lineCommand (lines ! i) \<notin> {Some ''G0'', Some ''G1''}
         \<longrightarrow> applySpeedOverride c lines ! i = lines ! i) \<and>
      (lineCommand (lines ! i) \<notin> {Some ''M104'', Some ''M109'', Some ''M140'', Some ''M190''}
         \<longrightarrow> applyTempTweak c lines ! i = lines ! i) \<and>
      (lineCommand (lines ! i) \<noteq> Some ''M106''
         \<longrightarrow> applyFanOverride c lines ! i = lines ! i))"
  by (simp add: applySpeedOverride_def applyTempTweak_def applyFanOverride_def Let_def
      speedLine_other tempLine_other fanLine_other)

theorem rewrites_frame_witness:
  "length (applySpeedOverride ((noDirectives [])\<lparr>speedSlider := Fin 50\<rparr>)
             [''M106 S255 ; F100'', ''G1 X1 F1200'']) = 2 \<and>
   applySpeedOverride ((noDirectives [])\<lparr>speedSlider := Fin 50\<rparr>)
     [''M106 S255 ; F100'', ''G1 X1 F1200''] ! 0 = ''M106 S255 ; F100'' \<and>
   applyTempTweak ((noDirectives [])\<lparr>nozzleOffsetInput := Fin 5\<rparr>)
     [''M106 S255 ; F100'', ''G1 X1 F1200''] ! 1 = ''G1 X1 F1200'' \<and>
   applyFanOverride ((noDirectives [])\<lparr>fanSlider := Fin 50\<rparr>)
     [''M106 S255 ; F100'', ''G1 X1 F1200''] ! 1 = ''G1 X1 F1200''"
proof -
  let ?L = "[''M106 S255 ; F100'', ''G1 X1 F1200'']"
  have c0: "lineCommand (?L ! 0) \<notin> {Some ''G0'', Some ''G1''}"
    by (simp add: str_eval)
  have c1: "lineCommand (?L ! 1) \<notin> {Some ''M104'', Some ''M109'', Some ''M140'', Some ''M190''}"
    "lineCommand (?L ! 1) \<noteq> Some ''M106''"
    by (simp_all add: str_eval)
  have i: "0 < length ?L" "1 < length ?L" by simp_all
  show ?thesis
    using rewrites_frame [of "(noDirectives [])\<lparr>speedSlider := Fin 50\<rparr>" ?L]
      rewrites_frame [of "(noDirectives [])\<lparr>nozzleOffsetInput := Fin 5\<rparr>" ?L]
      rewrites_frame [of "(noDirectives [])\<lparr>fanSlider := Fin 50\<rparr>" ?L] c0 c1 i
    by (metis nth_Cons_0 One_nat_def nth_Cons_Suc length_Cons list.size(3) numeral_2_eq_2)
qed

section \<open>Injection at the first line\<close>

lemma lineInjectBlock_length:
  "length (lineInjectBlock ij) = length (splitLines (gcode ij)) + 2"
  by (simp add: lineInjectBlock_def)

text \<open>
  C9: for every stream of \<open>N\<close> lines (\<open>N\<close> is at least 1, as for every split text) and a
  single line-mode injection at line number 1, whose block has \<open>k\<close> lines (the lines of
  the payload and the two marker comments): the result has \<open>N + k\<close> lines, its first
  \<open>k\<close> lines are the injected block from marker to marker, and the first line that is
  not of that block, at index \<open>k\<close>, is the original first line; the original lines follow
  unchanged.
\<close>

theorem line_injection_at_1:
  assumes "injections c = [ij]" and "mode ij = ''line''" and "number ij = 1"
    and "lines \<noteq> []" and "k = length (splitLines (gcode ij)) + 2"
  shows "length (applyInjections c lines) = length lines + k \<and>
         take k (applyInjections c lines) = lineInjectBlock ij \<and>
         drop k (applyInjections c lines) = lines \<and>
         applyInjections c lines ! k = lines ! 0"
proof -
  have r: "applyInjections c lines = lineInjectBlock ij @ lines"
    using assms by (simp add: applyInjections_def spliceAt_def)
  have k: "length (lineInjectBlock ij) = k"
    using assms by (simp add: lineInjectBlock_length)
  show ?thesis using r k by (simp add: nth_append)
qed

theorem line_injection_at_1_witness:
  "applyInjections
     ((noDirectives [])\<lparr>injections := [\<lparr>mode = ''line'', number = 1, gcode = ''M400''\<rparr>]\<rparr>)
     [''G28'', ''G1 X1''] ! 3 = ''G28'' \<and>
   length (applyInjections
     ((noDirectives [])\<lparr>injections := [\<lparr>mode = ''line'', number = 1, gcode = ''M400''\<rparr>]\<rparr>)
     [''G28'', ''G1 X1'']) = 5"
  using line_injection_at_1
    [of "(noDirectives [])\<lparr>injections := [\<lparr>mode = ''line'', number = 1, gcode = ''M400''\<rparr>]\<rparr>"
        "\<lparr>mode = ''line'', number = 1, gcode = ''M400''\<rparr>" "[''G28'', ''G1 X1'']" 3]
  by (simp add: noDirectives_def splitLines_def)

section \<open>One line of the metrics extractor\<close>

lemma jlt_asym: "jlt a b \<Longrightarrow> \<not> jlt b a"
  by (cases a; cases b) auto

lemma parseLine_tokenize:
  "parseLine raw rg =
     (case tokenize raw of
        None \<Rightarrow> (if trim raw = [] \<or> startsWith '';'' (trim raw)
                 then (metaLine (trim raw) (fst rg), snd rg) else rg)
      | Some (code, params) \<Rightarrow> command code params rg)"
  by (simp add: parseLine_def tokenize_def Let_def)

lemma motion_retraction:
  assumes "params CHR ''X'' \<noteq> None \<or> params CHR ''Y'' \<noteq> None"
    and "jlt (eChange params g) (Fin 0)"
  shows "retractionCount (fst (motion params (r, g))) = retractionCount r + 1"
    and "retractionDistance (fst (motion params (r, g))) =
         jadd (retractionDistance r) (jabs (eChange params g))"
    and "printMoves (fst (motion params (r, g))) = printMoves r"
    and "travelMoves (fst (motion params (r, g))) = travelMoves r"
    and "travelDistance (fst (motion params (r, g))) = travelDistance r"
  using assms jlt_asym [of "eChange params g" "Fin 0"]
  by (simp_all add: motion_def Let_def jgt_def)

lemma command_counters:
  "retractionCount (fst (command code params rg)) =
     retractionCount (fst (if code = ''G0'' \<or> code = ''G1'' then motion params rg else rg))"
  "retractionDistance (fst (command code params rg)) =
     retractionDistance (fst (if code = ''G0'' \<or> code = ''G1'' then motion params rg else rg))"
  "printMoves (fst (command code params rg)) =
     printMoves (fst (if code = ''G0'' \<or> code = ''G1'' then motion params rg else rg))"
  "travelMoves (fst (command code params rg)) =
     travelMoves (fst (if code = ''G0'' \<or> code = ''G1'' then motion params rg else rg))"
  "travelDistance (fst (command code params rg)) =
     travelDistance (fst (if code = ''G0'' \<or> code = ''G1'' then motion params rg else rg))"
  by (simp_all add: command_def Let_def)

text \<open>
  C3: for every line that the extractor reads as a motion command (\<open>G0\<close> or \<open>G1\<close>) with
  an explicit X or Y parameter, in every state of the pass: when the extrusion change of
  the line (the E value minus the accumulator in absolute mode, the E value itself in
  relative mode) is negative, the line adds one to \<open>retractionCount\<close> and the absolute
  value of the change to \<open>retractionDistance\<close>, and leaves \<open>printMoves\<close>, \<open>travelMoves\<close>
  and \<open>travelDistance\<close> as they were.
\<close>

theorem retraction_classified:
  assumes "tokenize raw = Some (code, params)"
    and "code = ''G0'' \<or> code = ''G1''"
    and "params CHR ''X'' \<noteq> None \<or> params CHR ''Y'' \<noteq> None"
    and "jlt (eChange params g) (Fin 0)"
  shows "retractionCount (fst (parseLine raw (r, g))) = retractionCount r + 1 \<and>
         retractionDistance (fst (parseLine raw (r, g))) =
           jadd (retractionDistance r) (jabs (eChange params g)) \<and>
         printMoves (fst (parseLine raw (r, g))) = printMoves r \<and>
         travelMoves (fst (parseLine raw (r, g))) = travelMoves r \<and>
         travelDistance (fst (parseLine raw (r, g))) = travelDistance r"
  using assms(1,2) motion_retraction [OF assms(3,4), of r]
  by (simp add: parseLine_tokenize command_counters)

theorem retraction_classified_witness:
  "retractionCount (fst (parseLine ''G1 X10 E-2 F1800'' (resultInit, registerInit))) = 1 \<and>
   retractionDistance (fst (parseLine ''G1 X10 E-2 F1800'' (resultInit, registerInit))) = Fin 2 \<and>
   printMoves (fst (parseLine ''G1 X10 E-2 F1800'' (resultInit, registerInit))) = 0 \<and>
   travelMoves (fst (parseLine ''G1 X10 E-2 F1800'' (resultInit, registerInit))) = 0 \<and>
   travelDistance (fst (parseLine ''G1 X10 E-2 F1800'' (resultInit, registerInit))) = Fin 0"
proof -
  let ?params = "[CHR ''X'' \<mapsto> Fin 10, CHR ''E'' \<mapsto> Fin (- 2), CHR ''F'' \<mapsto> Fin 1800]"
  have t: "tokenize ''G1 X10 E-2 F1800'' = Some (''G1'', ?params)"
    by (simp add: tokenize_def paramsOf_def str_eval num_eval Let_def cong: let_weak_cong)
  have c: "''G1'' = ''G0'' \<or> ''G1'' = ''G1''" by simp
  have x: "?params CHR ''X'' \<noteq> None \<or> ?params CHR ''Y'' \<noteq> None" by simp
  have e: "eChange ?params registerInit = Fin (- 2)"
    by (simp add: eChange_def extrusion_def paramOr_def registerInit_def num_eval Let_def
        cong: let_weak_cong)
  then have n: "jlt (eChange ?params registerInit) (Fin 0)" by simp
  have d: "jadd (Fin 0) (jabs (Fin (- 2))) = Fin 2"
    by (simp add: num_eval Let_def cong: let_weak_cong)
  show ?thesis
    using retraction_classified [OF t c x n, of resultInit] e d
    by (simp add: resultInit_def)
qed

section \<open>Fields that the loop leaves alone\<close>

lemma metaLine_frame:
  "bedTemp (metaLine line r) = bedTemp r"
  "printMoves (metaLine line r) = printMoves r"
  "warnings (metaLine line r) = warnings r"
  "layerHeight (metaLine line r) = layerHeight r"
  "firstLayerHeight (metaLine line r) = firstLayerHeight r"
  by (simp_all add: metaLine_def Let_def split: option.split)

lemma motion_frame:
  "bedTemp (fst (motion params rg)) = bedTemp (fst rg)"
  "warnings (fst (motion params rg)) = warnings (fst rg)"
  "layerHeight (fst (motion params rg)) = layerHeight (fst rg)"
  "firstLayerHeight (fst (motion params rg)) = firstLayerHeight (fst rg)"
  by (simp_all add: motion_def Let_def)

lemma command_frame:
  "warnings (fst (command code params rg)) = warnings (fst rg)"
  "layerHeight (fst (command code params rg)) = layerHeight (fst rg)"
  "firstLayerHeight (fst (command code params rg)) = firstLayerHeight (fst rg)"
  by (simp_all add: command_def Let_def motion_frame)

lemma command_bedTemp:
  "bedTemp (fst (command code params rg)) =
     (if (code = ''M140'' \<or> code = ''M190'') \<and> paramTruthy params CHR ''S''
      then jmax (bedTemp (fst rg)) (paramOr params CHR ''S'' NaN) else bedTemp (fst rg))"
  by (simp add: command_def Let_def motion_frame)

lemma parseLine_frame:
  "warnings (fst (parseLine l rg)) = warnings (fst rg)"
  "layerHeight (fst (parseLine l rg)) = layerHeight (fst rg)"
  "firstLayerHeight (fst (parseLine l rg)) = firstLayerHeight (fst rg)"
  by (simp_all add: parseLine_tokenize command_frame metaLine_frame split: option.split)

lemma parseLine_bedTemp:
  "\<not> isBedCommand l \<Longrightarrow> bedTemp (fst (parseLine l rg)) = bedTemp (fst rg)"
  by (auto simp: parseLine_tokenize isBedCommand_def command_bedTemp metaLine_frame
      split: option.splits)

lemma fold_parseLine_frame:
  "warnings (fst (fold parseLine ls rg)) = warnings (fst rg)"
  "layerHeight (fst (fold parseLine ls rg)) = layerHeight (fst rg)"
  "firstLayerHeight (fst (fold parseLine ls rg)) = firstLayerHeight (fst rg)"
  by (induction ls arbitrary: rg) (simp_all add: parseLine_frame)

lemma fold_parseLine_bedTemp:
  "\<forall>l \<in> set ls. \<not> isBedCommand l \<Longrightarrow>
   bedTemp (fst (fold parseLine ls rg)) = bedTemp (fst rg)"
  by (induction ls arbitrary: rg) (simp_all add: parseLine_bedTemp)

lemma postLayers_fields:
  "layerCount (postLayers sh r) = length sh"
  "firstLayerHeight (postLayers sh r) = (if 2 \<le> length sh then sh ! 0 else firstLayerHeight r)"
  "layerHeight (postLayers sh r) =
     (if 2 \<le> length sh then mostCommon (countDiffs (heightDiffs sh)) else layerHeight r)"
  by (simp_all add: postLayers_def Let_def)

lemma postProcess_layers:
  "layerCount (postProcess rg) =
     layerCount (postLayers (sortNums (layerHeights (snd rg))) (fst rg))"
  "firstLayerHeight (postProcess rg) =
     firstLayerHeight (postLayers (sortNums (layerHeights (snd rg))) (fst rg))"
  "layerHeight (postProcess rg) =
     layerHeight (postLayers (sortNums (layerHeights (snd rg))) (fst rg))"
  by (simp_all add: postProcess_def Let_def)

lemma postProcess_frame:
  "bedTemp (postProcess rg) = bedTemp (fst rg)"
  "printMoves (postProcess rg) = printMoves (fst rg)"
  "warnings (postProcess rg) = warnings (fst rg)"
  by (simp_all add: postProcess_def postLayers_def Let_def)

lemma addWarning_fields:
  "layerCount (addWarning l m r) = layerCount r"
  "firstLayerHeight (addWarning l m r) = firstLayerHeight r"
  "layerHeight (addWarning l m r) = layerHeight r"
  "printMoves (addWarning l m r) = printMoves r"
  by (simp_all add: addWarning_def)

lemma detectWarnings_fields:
  "layerCount (detectWarnings r) = layerCount r"
  "firstLayerHeight (detectWarnings r) = firstLayerHeight r"
  "layerHeight (detectWarnings r) = layerHeight r"
  "printMoves (detectWarnings r) = printMoves r"
  by (simp_all add: detectWarnings_def Let_def addWarning_fields)

section \<open>The bed-temperature diagnostic\<close>

lemma detectWarnings_error:
  "(\<exists>w \<in> set (warnings (detectWarnings r)). level w = Error) \<longleftrightarrow>
     (\<exists>w \<in> set (warnings r). level w = Error) \<or>
     (jeq (bedTemp r) (Fin 0) \<and> 100 < printMoves r)"
  by (simp add: detectWarnings_def addWarning_def Let_def) blast

lemma detectWarnings_noBed:
  "jeq (bedTemp r) (Fin 0) \<Longrightarrow> 100 < printMoves r \<Longrightarrow>
   \<lparr>level = Error, message = NoHeatedBed\<rparr> \<in> set (warnings (detectWarnings r))"
  by (simp add: detectWarnings_def addWarning_def Let_def)

lemma no_bed_command_error:
  assumes "\<forall>l \<in> set ls. \<not> isBedCommand l" and "100 < printMoves (analyse ls)"
  shows "\<lparr>level = Error, message = NoHeatedBed\<rparr> \<in> set (warnings (analyse ls))"
proof -
  have "bedTemp (fst (parseLines ls)) = Fin 0"
    using fold_parseLine_bedTemp [OF assms(1)] by (simp add: parseLines_def resultInit_def)
  then have b: "jeq (bedTemp (postProcess (parseLines ls))) (Fin 0)"
    by (simp add: postProcess_frame jeq_def)
  have p: "100 < printMoves (postProcess (parseLines ls))"
    using assms(2) by (simp add: analyse_def detectWarnings_fields)
  show ?thesis
    unfolding analyse_def by (rule detectWarnings_noBed [OF b p])
qed

lemma bed_command_no_error:
  assumes "\<forall>l \<in> set (pre @ post). \<not> isBedCommand l"
    and "tokenize b = Some (code, params)"
    and "code = ''M140'' \<or> code = ''M190''"
    and "params CHR ''S'' = Some (Fin 60)"
  shows "\<forall>w \<in> set (warnings (analyse (pre @ [b] @ post))). level w \<noteq> Error"
proof -
  let ?rg0 = "(resultInit, registerInit)"
  let ?rg1 = "fold parseLine pre ?rg0"
  let ?rg2 = "parseLine b ?rg1"
  let ?rg3 = "fold parseLine post ?rg2"
  have pre: "\<forall>l \<in> set pre. \<not> isBedCommand l" and post: "\<forall>l \<in> set post. \<not> isBedCommand l"
    using assms(1) by auto
  have "bedTemp (fst ?rg1) = Fin 0"
    using fold_parseLine_bedTemp [OF pre] by (simp add: resultInit_def)
  then have "bedTemp (fst ?rg2) = Fin 60"
    using assms(2-4)
    by (simp add: parseLine_tokenize command_bedTemp paramTruthy_def paramOr_def truthy_def
        jmax_def)
  then have "bedTemp (fst ?rg3) = Fin 60"
    using fold_parseLine_bedTemp [OF post] by simp
  moreover have "parseLines (pre @ [b] @ post) = ?rg3"
    by (simp add: parseLines_def)
  moreover have "warnings (fst ?rg3) = []"
    by (simp add: fold_parseLine_frame parseLine_frame resultInit_def)
  ultimately have
    "\<not> (\<exists>w \<in> set (warnings (detectWarnings (postProcess (parseLines (pre @ [b] @ post))))).
          level w = Error)"
    by (simp add: detectWarnings_error postProcess_frame jeq_def)
  then show ?thesis by (auto simp: analyse_def)
qed

text \<open>
  C8, as stated: every stream with print moves and no bed-temperature command gets an
  error-level warning. The stream below has two print moves and no bed-temperature
  command, and \<open>parse\<close> returns it without any warning: the rule asks for more than 100
  print moves.
\<close>

theorem few_print_moves_no_error:
  "filter isBedCommand (splitLines ''M83
G1 X1 Y1 E1
G1 X5 Y5 E1'') = [] \<and>
   printMoves (parse ''M83
G1 X1 Y1 E1
G1 X5 Y5 E1'') = 2 \<and>
   warnings (parse ''M83
G1 X1 Y1 E1
G1 X5 Y5 E1'') = []"
  by (simp add: parse_eval str_eval num_eval cong: let_weak_cong)

lemma print_line:
  assumes "\<not> isAbsoluteE (snd rg)"
  shows "printMoves (fst (parseLine ''G1 X1 E1'' rg)) = printMoves (fst rg) + 1 \<and>
         \<not> isAbsoluteE (snd (parseLine ''G1 X1 E1'' rg))"
proof -
  have t: "tokenize ''G1 X1 E1'' = Some (''G1'', [CHR ''X'' \<mapsto> Fin 1, CHR ''E'' \<mapsto> Fin 1])"
    by (simp add: tokenize_def paramsOf_def str_eval num_eval Let_def cong: let_weak_cong)
  show ?thesis using assms
    by (simp add: parseLine_tokenize t command_def motion_def eChange_def extrusion_def
        paramOr_def paramTruthy_def jgt_def Let_def)
qed

lemma print_lines:
  "\<not> isAbsoluteE (snd rg) \<Longrightarrow>
   printMoves (fst (fold parseLine (replicate n ''G1 X1 E1'') rg)) = printMoves (fst rg) + n"
proof (induction n arbitrary: rg)
  case 0
  show ?case by simp
next
  case (Suc n)
  from print_line [OF Suc.prems] Suc.IH [of "parseLine ''G1 X1 E1'' rg"]
  show ?case by simp
qed

text \<open>
  C8, amended: for every stream without any bed-temperature command whose count of print
  moves is above 100, the diagnostics append the error-level warning about the missing
  heated bed; for the same stream with one bed-temperature command setting 60, put at
  any place, no error-level warning is produced. (\<open>parse\<close> is \<^const>\<open>analyse\<close> on the
  lines of the text.)
\<close>

theorem bed_temperature_diagnostic:
  assumes "\<forall>l \<in> set (pre @ post). \<not> isBedCommand l"
    and "100 < printMoves (analyse (pre @ post))"
    and "tokenize b = Some (code, params)"
    and "code = ''M140'' \<or> code = ''M190''"
    and "params CHR ''S'' = Some (Fin 60)"
  shows "\<lparr>level = Error, message = NoHeatedBed\<rparr> \<in> set (warnings (analyse (pre @ post))) \<and>
         (\<forall>w \<in> set (warnings (analyse (pre @ [b] @ post))). level w \<noteq> Error)"
  using no_bed_command_error [OF assms(1,2)] bed_command_no_error [OF assms(1,3,4,5)]
  by simp

theorem bed_temperature_diagnostic_witness:
  "\<lparr>level = Error, message = NoHeatedBed\<rparr>
     \<in> set (warnings (analyse ([''M83''] @ replicate 101 ''G1 X1 E1''))) \<and>
   \<lparr>level = Error, message = NoHeatedBed\<rparr>
     \<notin> set (warnings (analyse ([''M83''] @ [''M140 S60''] @ replicate 101 ''G1 X1 E1'')))"
proof -
  let ?post = "replicate 101 ''G1 X1 E1''"
  have g: "tokenize ''G1 X1 E1'' = Some (''G1'', [CHR ''X'' \<mapsto> Fin 1, CHR ''E'' \<mapsto> Fin 1])"
    by (simp add: tokenize_def paramsOf_def str_eval num_eval Let_def cong: let_weak_cong)
  have m: "tokenize ''M83'' = Some (''M83'', Map.empty)"
    by (simp add: tokenize_def paramsOf_def str_eval)
  have h1: "\<forall>l \<in> set ([''M83''] @ ?post). \<not> isBedCommand l"
    by (simp add: isBedCommand_def g m)
  have rel: "\<not> isAbsoluteE (snd (parseLine ''M83'' (resultInit, registerInit)))"
    by (simp add: parseLine_tokenize m command_def Let_def)
  have "printMoves (fst (parseLines ([''M83''] @ ?post))) =
        printMoves (fst (parseLine ''M83'' (resultInit, registerInit))) + 101"
    using print_lines [OF rel, of 101] by (simp add: parseLines_def)
  then have h2: "100 < printMoves (analyse ([''M83''] @ ?post))"
    by (simp add: analyse_def detectWarnings_fields postProcess_frame)
  have h3: "tokenize ''M140 S60'' = Some (''M140'', [CHR ''S'' \<mapsto> Fin 60])"
    by (simp add: tokenize_def paramsOf_def str_eval num_eval Let_def cong: let_weak_cong)
  have h4: "''M140'' = ''M140'' \<or> ''M140'' = ''M190''" by simp
  have h5: "[CHR ''S'' \<mapsto> Fin 60] CHR ''S'' = Some (Fin 60)" by simp
  show ?thesis
    using bed_temperature_diagnostic [OF h1 h2 h3 h4 h5] by auto
qed

section \<open>The recorded heights\<close>

lemma motion_register:
  assumes "heightSeen g"
  shows "lastZ (snd (motion params (r, g))) = paramOr params CHR ''Z'' (lastZ g)"
    and "layerHeights (snd (motion params (r, g))) =
          (if jgt (paramOr params CHR ''Z'' (lastZ g)) (Fin 0)
           then setAdd (round3 (paramOr params CHR ''Z'' (lastZ g))) (layerHeights g)
           else layerHeights g)"
    and "heightSeen (snd (motion params (r, g)))"
  using assms
  by (auto simp: motion_def Let_def heightSeen_def round3_def setAdd_def jeq_def)

lemma command_register:
  "lastZ (snd (command code params rg)) =
     lastZ (snd (if code = ''G0'' \<or> code = ''G1'' then motion params rg else rg))"
  "layerHeights (snd (command code params rg)) =
     layerHeights (snd (if code = ''G0'' \<or> code = ''G1'' then motion params rg else rg))"
  by (simp_all add: command_def Let_def)

lemma fold_setAdd_set: "set (fold setAdd xs acc) = set xs \<union> set acc"
  by (induction xs arbitrary: acc) (auto simp: setAdd_def)

lemma fold_setAdd_distinct: "distinct acc \<Longrightarrow> distinct (fold setAdd xs acc)"
  by (induction xs arbitrary: acc) (auto simp: setAdd_def)

lemma parseLines_heights:
  assumes "heightSeen (snd rg)"
  shows "layerHeights (snd (fold parseLine ls rg)) =
         fold setAdd (map round3 (filter (\<lambda>z. jgt z (Fin 0)) (zTrace (lastZ (snd rg)) ls)))
           (layerHeights (snd rg))"
  using assms
proof (induction ls arbitrary: rg)
  case Nil
  show ?case by simp
next
  case (Cons l ls)
  obtain r g where rg: "rg = (r, g)" by (cases rg)
  with Cons.prems have hs: "heightSeen g" by simp
  show ?case
  proof (cases "tokenize l")
    case None
    then have s: "snd (parseLine l rg) = snd rg"
      by (simp add: parseLine_tokenize)
    with Cons.prems have "heightSeen (snd (parseLine l rg))" by simp
    from Cons.IH [OF this] None s show ?thesis by simp
  next
    case (Some cp)
    obtain code params where cp: "cp = (code, params)" by (cases cp)
    show ?thesis
    proof (cases "code = ''G0'' \<or> code = ''G1''")
      case True
      let ?g' = "snd (parseLine l rg)"
      have z: "lastZ ?g' = paramOr params CHR ''Z'' (lastZ g)"
        and h: "layerHeights ?g' =
          (if jgt (paramOr params CHR ''Z'' (lastZ g)) (Fin 0)
           then setAdd (round3 (paramOr params CHR ''Z'' (lastZ g))) (layerHeights g)
           else layerHeights g)"
        using True Some cp rg motion_register(1,2) [OF hs, of params r]
        by (simp_all add: parseLine_tokenize command_register)
      have "heightSeen (snd (motion params (r, g)))"
        by (rule motion_register(3) [OF hs])
      then have "heightSeen ?g'"
        using True Some cp rg
        by (simp add: parseLine_tokenize heightSeen_def command_register)
      from Cons.IH [OF this] z h True Some cp rg show ?thesis by simp
    next
      case False
      then have z: "lastZ (snd (parseLine l rg)) = lastZ (snd rg)"
        and h: "layerHeights (snd (parseLine l rg)) = layerHeights (snd rg)"
        using Some cp by (simp_all add: parseLine_tokenize command_register)
      with Cons.prems have "heightSeen (snd (parseLine l rg))"
        by (simp add: heightSeen_def)
      from Cons.IH [OF this] z h False Some cp show ?thesis by simp
    qed
  qed
qed

lemma layerHeights_parseLines:
  "layerHeights (snd (parseLines ls)) = fold setAdd (roundedHeights ls) []"
  using parseLines_heights [of "(resultInit, registerInit)" ls]
  by (simp add: parseLines_def heightSeen_def registerInit_def jgt_def roundedHeights_def
      visitedZ_def)

lemma length_layerHeights:
  "length (layerHeights (snd (parseLines ls))) = card (set (roundedHeights ls))"
proof -
  have "distinct (fold setAdd (roundedHeights ls) [])"
    by (rule fold_setAdd_distinct) simp
  then have "length (fold setAdd (roundedHeights ls) []) = card (set (roundedHeights ls))"
    using distinct_card [of "fold setAdd (roundedHeights ls) []"]
    by (simp add: fold_setAdd_set)
  then show ?thesis by (simp add: layerHeights_parseLines)
qed

lemma analyse_layers:
  "layerCount (analyse ls) = length (layerHeights (snd (parseLines ls)))"
  "firstLayerHeight (analyse ls) =
     (if 2 \<le> length (layerHeights (snd (parseLines ls)))
      then sortNums (layerHeights (snd (parseLines ls))) ! 0 else Fin 0)"
  "layerHeight (analyse ls) =
     (if 2 \<le> length (layerHeights (snd (parseLines ls)))
      then mostCommon (countDiffs (heightDiffs (sortNums (layerHeights (snd (parseLines ls))))))
      else Fin 0)"
  by (simp_all add: analyse_def detectWarnings_fields postProcess_layers postLayers_fields
      sortNums_def parseLines_def fold_parseLine_frame resultInit_def)

section \<open>A single height\<close>

text \<open>
  C10: for every input text whose motion commands visit exactly one distinct positive
  rounded Z-height, \<open>parse\<close> returns \<open>layerCount = 1\<close> and leaves \<open>firstLayerHeight\<close> and
  \<open>layerHeight\<close> at 0: the two fields are set only from two distinct heights on.
\<close>

theorem single_height:
  assumes "card (set (roundedHeights (splitLines text))) = 1"
  shows "layerCount (parse text) = 1 \<and> firstLayerHeight (parse text) = Fin 0 \<and>
         layerHeight (parse text) = Fin 0"
  using assms by (simp add: parse_def analyse_layers length_layerHeights)

theorem single_height_witness:
  "card (set (roundedHeights (splitLines ''G1 Z0.2
G1 X5''))) = 1 \<and>
   layerCount (parse ''G1 Z0.2
G1 X5'') = 1 \<and>
   firstLayerHeight (parse ''G1 Z0.2
G1 X5'') = Fin 0 \<and>
   layerHeight (parse ''G1 Z0.2
G1 X5'') = Fin 0"
proof -
  have r: "roundedHeights (splitLines ''G1 Z0.2
G1 X5'') = [round64 (2 / 10), round64 (2 / 10)]"
    by (simp add: parse_eval str_eval num_eval cong: let_weak_cong)
  have h: "card (set (roundedHeights (splitLines ''G1 Z0.2
G1 X5''))) = 1"
    by (simp add: r)
  show ?thesis using h single_height [OF h] by simp
qed

section \<open>Decimal numerals\<close>

lemma digitChar_props:
  assumes "d < 10"
  shows "isDigit (digitChar d)" and "digitVal (digitChar d) = d"
proof -
  from assms have "d \<in> {0, 1, 2, 3, 4, 5, 6, 7, 8, 9}" by auto
  then show "isDigit (digitChar d)" and "digitVal (digitChar d) = d"
    by (auto simp: digitChar_def isDigit_def digitVal_def)
qed

lemma isDigit_not_special:
  "isDigit c \<Longrightarrow> \<not> isSpace c \<and> c \<noteq> CHR ''-'' \<and> c \<noteq> CHR ''+'' \<and> c \<noteq> CHR ''.'' \<and> c \<noteq> CHR ''I''"
  by (auto simp: isDigit_def isSpace_def)

lemma digitsOf_digits: "\<forall>c \<in> set (digitsOf n). isDigit c"
proof (induction n rule: digitsOf.induct)
  case (1 n)
  show ?case
  proof (cases "n < 10")
    case True
    then show ?thesis by (subst digitsOf.simps) (simp add: digitChar_props)
  next
    case False
    with 1 show ?thesis by (subst digitsOf.simps) (simp add: digitChar_props)
  qed
qed

lemma digitsOf_nonempty: "digitsOf n \<noteq> []"
  by (subst digitsOf.simps) simp

lemma foldl_digits:
  "foldl (\<lambda>a c. 10 * a + digitVal c) a ds =
   a * 10 ^ length ds + foldl (\<lambda>a c. 10 * a + digitVal c) 0 ds"
proof (induction ds arbitrary: a)
  case Nil
  show ?case by simp
next
  case (Cons d ds)
  show ?case
    using Cons.IH [of "10 * a + digitVal d"] Cons.IH [of "digitVal d"]
    by (simp add: algebra_simps)
qed

lemma natOfDigits_append:
  "natOfDigits (xs @ ys) = natOfDigits xs * 10 ^ length ys + natOfDigits ys"
  unfolding natOfDigits_def using foldl_digits [of "foldl (\<lambda>a c. 10 * a + digitVal c) 0 xs" ys]
  by simp

lemma natOfDigits_digitsOf: "natOfDigits (digitsOf n) = n"
proof (induction n rule: digitsOf.induct)
  case (1 n)
  show ?case
  proof (cases "n < 10")
    case True
    then show ?thesis
      by (subst digitsOf.simps) (simp add: natOfDigits_def digitChar_props)
  next
    case False
    have "natOfDigits (digitsOf (n div 10) @ [digitChar (n mod 10)]) = n"
      using 1 [OF False] by (simp add: natOfDigits_append) (simp add: natOfDigits_def digitChar_props)
    with False show ?thesis by (subst digitsOf.simps) simp
  qed
qed

lemma natOfDigits_zeros: "natOfDigits (replicate k CHR ''0'' @ ds) = natOfDigits ds"
proof -
  have "natOfDigits (replicate k CHR ''0'') = 0"
    by (induction k) (simp_all add: natOfDigits_def digitVal_def replicate_app_Cons_same foldl_digits [of "digitVal _"])
  then show ?thesis by (simp add: natOfDigits_append)
qed



lemma takeWhile_all_then: "\<forall>x \<in> set xs. P x \<Longrightarrow> takeWhile P (xs @ ys) = xs @ takeWhile P ys"
  by (induction xs) auto

lemma dropWhile_all_then: "\<forall>x \<in> set xs. P x \<Longrightarrow> dropWhile P (xs @ ys) = dropWhile P ys"
  by (induction xs) auto

lemma parseFloat_decimal:
  assumes "ip \<noteq> []" and "\<forall>c \<in> set ip. isDigit c" and "\<forall>c \<in> set fp. isDigit c"
  shows "parseFloat (ip @ CHR ''.'' # fp) =
         round64 (real (natOfDigits ip) + real (natOfDigits fp) / 10 ^ length fp)"
proof -
  obtain d ds where ip: "ip = d # ds" using assms(1) by (cases ip) auto
  with assms(2) have d: "isDigit d" by simp
  have nd: "\<not> isDigit CHR ''.''" by (simp add: isDigit_def)
  have s: "signOf (dropWhile isSpace (ip @ CHR ''.'' # fp)) = (False, ip @ CHR ''.'' # fp)"
    using isDigit_not_special [OF d] by (simp add: ip)
  have i: "\<not> startsWith ''Infinity'' (ip @ CHR ''.'' # fp)"
    using isDigit_not_special [OF d] by (simp add: ip startsWith_def)
  have t1: "takeWhile isDigit (ip @ CHR ''.'' # fp) = ip"
    using assms(2) nd by (simp add: takeWhile_all_then)
  have t2: "dropWhile isDigit (ip @ CHR ''.'' # fp) = CHR ''.'' # fp"
    using assms(2) nd by (simp add: dropWhile_all_then)
  have t3: "takeWhile isDigit fp = fp" "dropWhile isDigit fp = []"
    using assms(3) by simp_all
  show ?thesis
    unfolding parseFloat_def s using i assms(1)
    by (simp add: t1 t2 t3 Let_def scale10_def)
qed

lemma take_drop_digits:
  "natOfDigits ds = natOfDigits (take k ds) * 10 ^ length (drop k ds) + natOfDigits (drop k ds)"
  using natOfDigits_append [of "take k ds" "drop k ds"] by simp

lemma isDigit_zero: "isDigit CHR ''0''"
  by (simp add: isDigit_def)

lemma padZeros_digits: "\<forall>c \<in> set ds. isDigit c \<Longrightarrow> \<forall>c \<in> set (padZeros k ds). isDigit c"
  using isDigit_zero by (auto simp: padZeros_def)

lemma toFixed3_Fin:
  assumes "0 \<le> a" and "a < 10 ^ 21"
  shows "toFixed 3 (Fin a) =
         (let ds = padZeros 4 (digitsOf (nat \<lfloor>a * 1000 + 1 / 2\<rfloor>)); k = length ds - 3
          in take k ds @ CHR ''.'' # drop k ds)"
proof -
  have "\<bar>a\<bar> = a" using assms by simp
  moreover have "\<not> 10 ^ 21 \<le> a" using assms by simp
  moreover have "\<not> a < 0" using assms by simp
  ultimately show ?thesis
    by (simp add: Let_def)
qed

lemma round3_Fin:
  assumes "0 \<le> a" and "a < 10 ^ 21"
  shows "round3 (Fin a) = round64 (real_of_int \<lfloor>a * 1000 + 1 / 2\<rfloor> / 1000)"
proof -
  define n where "n = nat \<lfloor>a * 1000 + 1 / 2\<rfloor>"
  define ds where "ds = padZeros 4 (digitsOf n)"
  define k where "k = length ds - 3"
  have len: "4 \<le> length ds"
    by (simp add: ds_def padZeros_def)
  have dig: "\<forall>c \<in> set ds. isDigit c"
    unfolding ds_def by (rule padZeros_digits) (rule digitsOf_digits)
  have val: "natOfDigits ds = n"
    by (simp add: ds_def padZeros_def natOfDigits_zeros natOfDigits_digitsOf)
  have tf: "toFixed 3 (Fin a) = take k ds @ CHR ''.'' # drop k ds"
    using toFixed3_Fin [OF assms] by (simp add: Let_def n_def ds_def k_def)
  have tk: "take k ds \<noteq> []" using len by (auto simp: k_def)
  have dk: "length (drop k ds) = 3" using len by (simp add: k_def)
  have "parseFloat (take k ds @ CHR ''.'' # drop k ds) =
        round64 (real (natOfDigits (take k ds)) + real (natOfDigits (drop k ds)) / 10 ^ 3)"
    using parseFloat_decimal [OF tk, of "drop k ds"] dig dk
    by (metis in_set_takeD in_set_dropD)
  also have "real (natOfDigits (take k ds)) + real (natOfDigits (drop k ds)) / 10 ^ 3 =
             real n / 1000"
    using take_drop_digits [of ds k] dk val by simp
  also have "real n = real_of_int \<lfloor>a * 1000 + 1 / 2\<rfloor>"
    using assms(1) by (simp add: n_def)
  finally show ?thesis by (simp only: round3_def tf)
qed

section \<open>The sorted heights\<close>

lemma inj_numKey: "inj numKey"
proof (rule injI)
  fix x y assume "numKey x = numKey y"
  then show "x = y" by (cases x; cases y) auto
qed

lemma sortNums_unique:
  assumes "distinct xs" and "distinct ys" and "set xs = set ys"
  shows "sortNums xs = sortNums ys"
proof -
  have "map numKey (sort_key numKey xs) = map numKey (sort_key numKey ys)"
  proof (rule sorted_distinct_set_unique)
    show "distinct (map numKey (sort_key numKey xs))"
      using assms(1) inj_numKey by (simp add: distinct_map inj_on_def inj_def)
    show "distinct (map numKey (sort_key numKey ys))"
      using assms(2) inj_numKey by (simp add: distinct_map inj_on_def inj_def)
  qed (simp_all add: assms(3))
  then show ?thesis
    using inj_numKey by (simp add: sortNums_def inj_map_eq_map)
qed

lemma sortedHeights_code:
  "sortNums (layerHeights (snd (parseLines ls))) = sortedHeights ls"
  unfolding sortedHeights_def layerHeights_parseLines
  by (rule sortNums_unique) (simp_all add: fold_setAdd_distinct fold_setAdd_set)

section \<open>The most common difference\<close>

lemma fold_bump_snoc: "countDiffs (ds @ [d]) = bump d (countDiffs ds)"
  by (simp add: countDiffs_def)

lemma bump_map:
  assumes "distinct ks" and "d \<notin> set ks \<longrightarrow> c d = 0"
  shows "bump d (map (\<lambda>k. (k, c k)) ks) =
         map (\<lambda>k. (k, if k = d then c k + 1 else c k)) (setAdd d ks)"
  using assms
proof (induction ks)
  case Nil
  then show ?case by (simp add: setAdd_def)
next
  case (Cons k ks)
  show ?case
  proof (cases "k = d")
    case True
    with Cons.prems show ?thesis by (auto simp: setAdd_def)
  next
    case False
    with Cons show ?thesis by (auto simp: setAdd_def)
  qed
qed

lemma fold_setAdd_snoc: "fold setAdd (xs @ [x]) acc = setAdd x (fold setAdd xs acc)"
  by simp

lemma countDiffs_counts:
  "countDiffs ds = map (\<lambda>k. (k, count_list ds k)) (fold setAdd ds [])"
proof (induction ds rule: rev_induct)
  case Nil
  show ?case by (simp add: countDiffs_def)
next
  case (snoc d ds)
  have dist: "distinct (fold setAdd ds [])" by (rule fold_setAdd_distinct) simp
  have zero: "d \<notin> set (fold setAdd ds []) \<longrightarrow> count_list ds d = 0"
    by (simp add: fold_setAdd_set count_list_0_iff)
  have "countDiffs (ds @ [d]) = bump d (map (\<lambda>k. (k, count_list ds k)) (fold setAdd ds []))"
    using snoc by (simp add: fold_bump_snoc)
  also have "\<dots> = map (\<lambda>k. (k, if k = d then count_list ds k + 1 else count_list ds k))
                    (setAdd d (fold setAdd ds []))"
    using bump_map [of "fold setAdd ds []" d "count_list ds", OF dist zero] .
  also have "\<dots> = map (\<lambda>k. (k, count_list (ds @ [d]) k)) (fold setAdd (ds @ [d]) [])"
    by (simp add: fold_setAdd_snoc)
  finally show ?case .
qed

lemma filter_fold_setAdd:
  "filter P (fold setAdd xs acc) = fold setAdd (filter P xs) (filter P acc)"
  by (induction xs arbitrary: acc) (auto simp: setAdd_def)

lemma hd_fold_setAdd_acc: "acc \<noteq> [] \<Longrightarrow> hd (fold setAdd xs acc) = hd acc"
  by (induction xs arbitrary: acc) (auto simp: setAdd_def)

lemma hd_fold_setAdd: "xs \<noteq> [] \<Longrightarrow> hd (fold setAdd xs []) = hd xs"
  by (cases xs) (simp_all add: hd_fold_setAdd_acc setAdd_def)

lemma fold_setAdd_nonempty: "fold setAdd xs [] = [] \<longleftrightarrow> xs = []"
  using fold_setAdd_set [of xs "[]"] by (metis set_empty sup_bot.right_neutral)

text \<open>The head of a stable sort is the first element with a least key.\<close>

lemma hd_sort_key:
  assumes "xs \<noteq> []"
  shows "filter (\<lambda>x. \<forall>y \<in> set xs. f x \<le> f y) xs \<noteq> [] \<and>
         hd (sort_key f xs) = hd (filter (\<lambda>x. \<forall>y \<in> set xs. f x \<le> f y) xs)"
proof -
  let ?s = "sort_key f xs"
  from assms have ne: "?s \<noteq> []" by (metis length_sort length_0_conv)
  then obtain m rest where s: "?s = m # rest" by (cases ?s) auto
  have "sorted (map f ?s)" by simp
  then have least: "\<forall>y \<in> set xs. f m \<le> f y"
    using s by (metis list.simps(9) set_sort sorted_simps(2) list.set_intros(1) set_ConsD image_eqI list.set_map order_refl)
  have "set ?s = set xs" by simp
  then have m_in: "m \<in> set xs" using s by (metis list.set_intros(1))
  have eq: "(\<forall>y \<in> set xs. f x \<le> f y) \<longleftrightarrow> f x = f m" if "x \<in> set xs" for x
    using least m_in that by (metis order_antisym)
  have "filter (\<lambda>x. \<forall>y \<in> set xs. f x \<le> f y) xs = filter (\<lambda>x. f x = f m) xs"
    by (rule filter_cong) (simp_all add: eq)
  also have "\<dots> = filter (\<lambda>x. f x = f m) ?s"
    by (simp add: sort_key_stable)
  also have "\<dots> = m # filter (\<lambda>x. f x = f m) rest"
    by (simp add: s)
  finally show ?thesis by (simp add: s)
qed


lemma objectEntries_plain:
  assumes "\<forall>e \<in> set cs. \<not> isArrayIndex (fst e)"
  shows "objectEntries cs = cs"
proof -
  have "filter (\<lambda>e. isArrayIndex (fst e)) cs = []"
    using assms by (simp add: filter_empty_conv)
  moreover have "filter (\<lambda>e. \<not> isArrayIndex (fst e)) cs = cs"
    using assms by (simp add: filter_id_conv)
  ultimately show ?thesis by (simp add: objectEntries_def)
qed

lemma mostCommon_mode:
  assumes "ds \<noteq> []" and "\<forall>d \<in> set ds. \<not> isArrayIndex d"
  shows "mostCommon (countDiffs ds) = modeFirstSeen ds"
proof -
  let ?ks = "fold setAdd ds []"
  let ?h = "\<lambda>k. (k, count_list ds k)"
  let ?g = "\<lambda>e :: jsnum \<times> nat. - int (snd e)"
  let ?P = "\<lambda>d. \<forall>d' \<in> set ds. count_list ds d' \<le> count_list ds d"
  have cs: "countDiffs ds = map ?h ?ks" by (rule countDiffs_counts)
  have ks: "set ?ks = set ds" by (simp add: fold_setAdd_set)
  have ne: "map ?h ?ks \<noteq> []" using assms(1) by (simp add: fold_setAdd_nonempty)
  have plain: "objectEntries (map ?h ?ks) = map ?h ?ks"
    by (rule objectEntries_plain) (use assms(2) ks in auto)
  have Q: "(\<forall>y \<in> set (map ?h ?ks). ?g (?h k) \<le> ?g y) \<longleftrightarrow> ?P k" for k
    by (auto simp: ks)
  have "filter (\<lambda>x. \<forall>y \<in> set (map ?h ?ks). ?g x \<le> ?g y) (map ?h ?ks) =
        map ?h (filter ?P ?ks)"
    unfolding filter_map o_def Q ..
  with hd_sort_key [OF ne, of ?g]
  have F: "map ?h (filter ?P ?ks) \<noteq> []"
    and H: "hd (sort_key ?g (map ?h ?ks)) = hd (map ?h (filter ?P ?ks))"
    by simp_all
  have fk: "filter ?P ?ks = fold setAdd (filter ?P ds) []"
    by (simp add: filter_fold_setAdd)
  from F have nk: "filter ?P ?ks \<noteq> []" by simp
  then have nd: "filter ?P ds \<noteq> []" by (simp add: fk fold_setAdd_nonempty)
  have "hd (filter ?P ?ks) = hd (filter ?P ds)"
    unfolding fk by (rule hd_fold_setAdd [OF nd])
  then have "fst (hd (sort_key ?g (map ?h ?ks))) = hd (filter ?P ds)"
    using H nk by (simp add: hd_map)
  moreover have "sort_key ?g (map ?h ?ks) \<noteq> []"
    using ne by (metis length_sort length_0_conv)
  ultimately have "mostCommon (map ?h ?ks) = hd (filter ?P ds)"
    unfolding mostCommon_def plain by (cases "sort_key ?g (map ?h ?ks)") simp_all
  moreover have "modeFirstSeen ds = hd (filter ?P ds)"
    using nd unfolding modeFirstSeen_def by (cases "filter ?P ds") simp_all
  ultimately show ?thesis by (simp add: cs)
qed

lemma set_objectEntries: "set (objectEntries cs) = set cs"
  by (auto simp: objectEntries_def)

lemma heightDiffs_nonempty: "2 \<le> length sh \<Longrightarrow> heightDiffs sh \<noteq> []"
  by (auto simp: heightDiffs_def min_def)

lemma mostCommon_max:
  assumes "ds \<noteq> []"
  shows "mostCommon (countDiffs ds) \<in> set ds \<and>
         (\<forall>d \<in> set ds. count_list ds d \<le> count_list ds (mostCommon (countDiffs ds)))"
proof -
  let ?h = "\<lambda>k. (k, count_list ds k)"
  let ?g = "\<lambda>e :: jsnum \<times> nat. - int (snd e)"
  let ?es = "objectEntries (countDiffs ds)"
  have cs: "set ?es = ?h ` set ds"
    by (simp add: set_objectEntries countDiffs_counts fold_setAdd_set)
  with assms have ne: "?es \<noteq> []" by auto
  let ?F = "filter (\<lambda>x. \<forall>y \<in> set ?es. ?g x \<le> ?g y) ?es"
  from hd_sort_key [OF ne, of ?g]
  have F: "?F \<noteq> []" and H: "hd (sort_key ?g ?es) = hd ?F" by simp_all
  from F have "hd ?F \<in> set ?F" by (rule hd_in_set)
  then have m: "hd ?F \<in> set ?es" and least: "\<forall>y \<in> set ?es. ?g (hd ?F) \<le> ?g y"
    by simp_all
  have "sort_key ?g ?es \<noteq> []" using ne by (metis length_sort length_0_conv)
  then have mc: "mostCommon (countDiffs ds) = fst (hd ?F)"
    unfolding mostCommon_def using H by (cases "sort_key ?g ?es") simp_all
  from m cs obtain k where k: "k \<in> set ds" "hd ?F = ?h k" by auto
  have "\<forall>d \<in> set ds. count_list ds d \<le> count_list ds k"
  proof
    fix d assume "d \<in> set ds"
    then have "?h d \<in> set ?es" using cs by auto
    with least k show "count_list ds d \<le> count_list ds k" by auto
  qed
  with k mc show ?thesis by simp
qed

section \<open>The layer fields of the result\<close>

lemma analyse_sorted:
  "layerCount (analyse ls) = length (sortedHeights ls)"
  "firstLayerHeight (analyse ls) =
     (if 2 \<le> length (sortedHeights ls) then sortedHeights ls ! 0 else Fin 0)"
  "layerHeight (analyse ls) =
     (if 2 \<le> length (sortedHeights ls)
      then mostCommon (countDiffs (layerDeltas ls)) else Fin 0)"
proof -
  have l: "length (layerHeights (snd (parseLines ls))) = length (sortedHeights ls)"
    using sortedHeights_code [of ls] by (metis sortNums_def length_sort)
  show "layerCount (analyse ls) = length (sortedHeights ls)"
    "firstLayerHeight (analyse ls) =
     (if 2 \<le> length (sortedHeights ls) then sortedHeights ls ! 0 else Fin 0)"
    "layerHeight (analyse ls) =
     (if 2 \<le> length (sortedHeights ls)
      then mostCommon (countDiffs (layerDeltas ls)) else Fin 0)"
    by (simp_all add: analyse_layers l sortedHeights_code layerDeltas_def)
qed

lemma example_heights:
  assumes "visitedZ ls = [round64 (2 / 10), round64 (2 / 10), round64 (4 / 10), round64 (6 / 10)]"
  shows "sortedHeights ls = [round64 (2 / 10), round64 (4 / 10), round64 (6 / 10)]"
  by (simp add: sortedHeights_def roundedHeights_def assms round3_def sortNums_def padZeros_def
      str_eval num_eval Let_def cong: let_weak_cong)

lemma example_deltas:
  "heightDiffs [round64 (2 / 10), round64 (4 / 10), round64 (6 / 10)] =
   [round64 (2 / 10), round64 (2 / 10)]"
  by (simp add: heightDiffs_def padZeros_def str_eval num_eval upt_rec Let_def cong: let_weak_cong)

lemma example_mode:
  "mostCommon (countDiffs [round64 (2 / 10), round64 (2 / 10)]) = round64 (2 / 10)"
  by (simp add: countDiffs_def mostCommon_def objectEntries_def num_eval Let_def
      cong: let_weak_cong)

text \<open>
  C4, as stated: \<open>layerHeight\<close> is the most frequent difference, ties broken by
  first-seen value. For the heights 0.3, 0.5 and 1.5 the differences are 0.2 and 1, once
  each, and 0.2 is seen first; \<open>parse\<close> reports 1. The key \<open>1\<close> of the counting object is
  an array index, and \<open>Object.entries\<close> lists such keys before all others. (0.2 is the
  binary64 number nearest to 2/10.)
\<close>

theorem tie_not_first_seen:
  "layerDeltas (splitLines ''G1 Z0.3
G1 Z0.5
G1 Z1.5'') = [round64 (2 / 10), Fin 1] \<and>
   modeFirstSeen [round64 (2 / 10), Fin 1] = round64 (2 / 10) \<and>
   round64 (2 / 10) \<noteq> Fin 1 \<and>
   layerHeight (parse ''G1 Z0.3
G1 Z0.5
G1 Z1.5'') = Fin 1"
proof -
  have "layerDeltas (splitLines ''G1 Z0.3
G1 Z0.5
G1 Z1.5'') = [round64 (2 / 10), Fin 1]"
    by (simp add: layerDeltas_def sortedHeights_def parse_eval str_eval num_eval upt_rec
        cong: let_weak_cong)
  moreover have "modeFirstSeen [round64 (2 / 10), Fin 1] = round64 (2 / 10)"
    by (simp add: modeFirstSeen_def num_eval Let_def cong: let_weak_cong)
  moreover have "round64 (2 / 10) \<noteq> Fin 1"
    by (simp add: num_eval Let_def cong: let_weak_cong)
  moreover have "layerHeight (parse ''G1 Z0.3
G1 Z0.5
G1 Z1.5'') = Fin 1"
    by (simp add: parse_eval str_eval num_eval upt_rec cong: let_weak_cong)
  ultimately show ?thesis by simp
qed


text \<open>
  C4, amended. For every input text, \<open>layerCount\<close> is the number of distinct positive
  Z-heights that the motion commands visit, after rounding to 3 decimal places. The
  rounding of the extractor takes a height \<open>a\<close> from 0 up to \<open>10\<^sup>2\<^sup>1\<close> (a binary64 number,
  not the decimal it was written as) to the nearest thousandth, halves going up, and then
  to the binary64 number nearest to that thousandth. A stream whose Z values are exactly
  0.2, 0.2, 0.4, 0.6 (the binary64 numbers nearest to these decimals) yields
  \<open>layerCount = 3\<close>, \<open>firstLayerHeight = 0.2\<close> and \<open>layerHeight = 0.2\<close>. From two distinct
  heights on, \<open>layerHeight\<close> is a most frequent difference among the first 20 sorted
  distinct heights, and ties are broken by first-seen value when none of the differences
  is a whole number from 0 to \<open>2\<^sup>3\<^sup>2 - 2\<close>.
\<close>

theorem layer_metrics:
  "layerCount (parse text) = card (set (roundedHeights (splitLines text))) \<and>
   (\<forall>a. 0 \<le> a \<and> a < 10 ^ 21 \<longrightarrow>
        round3 (Fin a) = round64 (real_of_int \<lfloor>a * 1000 + 1 / 2\<rfloor> / 1000)) \<and>
   (visitedZ (splitLines text) =
      [round64 (2 / 10), round64 (2 / 10), round64 (4 / 10), round64 (6 / 10)] \<longrightarrow>
      layerCount (parse text) = 3 \<and> firstLayerHeight (parse text) = round64 (2 / 10) \<and>
      layerHeight (parse text) = round64 (2 / 10)) \<and>
   (2 \<le> layerCount (parse text) \<longrightarrow>
      layerHeight (parse text) \<in> set (layerDeltas (splitLines text)) \<and>
      (\<forall>d \<in> set (layerDeltas (splitLines text)).
         count_list (layerDeltas (splitLines text)) d
           \<le> count_list (layerDeltas (splitLines text)) (layerHeight (parse text))) \<and>
      ((\<forall>d \<in> set (layerDeltas (splitLines text)). \<not> isArrayIndex d) \<longrightarrow>
         layerHeight (parse text) = modeFirstSeen (layerDeltas (splitLines text))))"
proof -
  let ?ls = "splitLines text"
  have p1: "layerCount (parse text) = card (set (roundedHeights ?ls))"
    by (simp add: parse_def analyse_layers length_layerHeights)
  have p2: "\<forall>a. 0 \<le> a \<and> a < 10 ^ 21 \<longrightarrow>
              round3 (Fin a) = round64 (real_of_int \<lfloor>a * 1000 + 1 / 2\<rfloor> / 1000)"
    using round3_Fin by simp
  have p3: "layerCount (parse text) = 3 \<and> firstLayerHeight (parse text) = round64 (2 / 10) \<and>
            layerHeight (parse text) = round64 (2 / 10)"
    if v: "visitedZ ?ls =
             [round64 (2 / 10), round64 (2 / 10), round64 (4 / 10), round64 (6 / 10)]"
  proof -
    have sh: "sortedHeights ?ls = [round64 (2 / 10), round64 (4 / 10), round64 (6 / 10)]"
      by (rule example_heights [OF v])
    have "layerHeight (parse text) = mostCommon (countDiffs (heightDiffs (sortedHeights ?ls)))"
      using sh by (simp add: parse_def analyse_sorted(3) layerDeltas_def)
    also have "\<dots> = round64 (2 / 10)"
      by (simp only: sh example_deltas example_mode)
    finally show ?thesis
      by (simp add: parse_def analyse_sorted(1,2) sh)
  qed
  have p4: "layerHeight (parse text) \<in> set (layerDeltas ?ls) \<and>
      (\<forall>d \<in> set (layerDeltas ?ls).
         count_list (layerDeltas ?ls) d
           \<le> count_list (layerDeltas ?ls) (layerHeight (parse text))) \<and>
      ((\<forall>d \<in> set (layerDeltas ?ls). \<not> isArrayIndex d) \<longrightarrow>
         layerHeight (parse text) = modeFirstSeen (layerDeltas ?ls))"
    if c: "2 \<le> layerCount (parse text)"
  proof -
    from c have two: "2 \<le> length (sortedHeights ?ls)"
      by (simp add: parse_def analyse_sorted)
    then have ne: "layerDeltas ?ls \<noteq> []"
      by (simp add: layerDeltas_def heightDiffs_nonempty)
    have lh: "layerHeight (parse text) = mostCommon (countDiffs (layerDeltas ?ls))"
      using two by (simp add: parse_def analyse_sorted)
    show ?thesis
      unfolding lh using mostCommon_max [OF ne] mostCommon_mode [OF ne] by blast
  qed
  show ?thesis using p1 p2 p3 p4 by blast
qed

theorem layer_metrics_witness:
  "visitedZ (splitLines ''G1 Z0.2
G1 Z0.2
G1 Z0.4
G1 Z0.6'') = [round64 (2 / 10), round64 (2 / 10), round64 (4 / 10), round64 (6 / 10)] \<and>
   round3 (Fin (1 / 16)) = round64 (63 / 1000) \<and>
   layerCount (parse ''G1 Z0.2
G1 Z0.2
G1 Z0.4
G1 Z0.6'') = 3 \<and>
   firstLayerHeight (parse ''G1 Z0.2
G1 Z0.2
G1 Z0.4
G1 Z0.6'') = round64 (2 / 10) \<and>
   layerHeight (parse ''G1 Z0.2
G1 Z0.2
G1 Z0.4
G1 Z0.6'') = round64 (2 / 10) \<and>
   layerHeight (parse ''G1 Z0.2
G1 Z0.2
G1 Z0.4
G1 Z0.6'') = modeFirstSeen [round64 (2 / 10), round64 (2 / 10)]"
proof -
  let ?T = "''G1 Z0.2
G1 Z0.2
G1 Z0.4
G1 Z0.6''"
  note L = layer_metrics [of ?T]
  have v: "visitedZ (splitLines ?T) =
           [round64 (2 / 10), round64 (2 / 10), round64 (4 / 10), round64 (6 / 10)]"
    by (simp add: visitedZ_def tokenize_def paramsOf_def paramOr_def str_eval num_eval Let_def
        cong: let_weak_cong)
  from L v have ex: "layerCount (parse ?T) = 3 \<and>
      firstLayerHeight (parse ?T) = round64 (2 / 10) \<and>
      layerHeight (parse ?T) = round64 (2 / 10)"
    by blast
  have d: "layerDeltas (splitLines ?T) = [round64 (2 / 10), round64 (2 / 10)]"
    unfolding layerDeltas_def example_heights [OF v] by (rule example_deltas)
  have i: "\<not> isArrayIndex (round64 (2 / 10))"
    by (simp add: num_eval Let_def cong: let_weak_cong)
  have na: "\<forall>d \<in> set (layerDeltas (splitLines ?T)). \<not> isArrayIndex d"
    unfolding d using i by simp
  have two: "2 \<le> layerCount (parse ?T)" using ex by simp
  from L two na have m: "layerHeight (parse ?T) = modeFirstSeen (layerDeltas (splitLines ?T))"
    by blast
  have a: "(0::real) \<le> 1 / 16 \<and> (1 / 16 :: real) < 10 ^ 21" by simp
  from L a have "round3 (Fin (1 / 16)) =
      round64 (real_of_int \<lfloor>1 / 16 * 1000 + 1 / 2 :: real\<rfloor> / 1000)"
    by blast
  moreover have "\<lfloor>1 / 16 * 1000 + 1 / 2 :: real\<rfloor> = 63" by simp
  ultimately have r: "round3 (Fin (1 / 16)) = round64 (63 / 1000)" by simp
  show ?thesis using v ex m r unfolding d by simp
qed

end
